theory Spec2Isabelle
  imports Main
begin

section \<open>Vocabulary shared with botbuilder-core\<close>

text \<open>
  The prompt and the turn driver are written against types of botbuilder-core. The
  enumerations are datatypes; an activity carries the fields the two classes read.
  A JavaScript object whose properties hold strings is a map from property names:
  \<open>obj k = None\<close> is a property that is \<open>undefined\<close>. An exception is a value of
  \<open>error\<close>, and a function that may throw returns \<open>error + 'a\<close>.
\<close>

datatype ActivityTypes = Message | ContactRelationUpdate | ConversationUpdate | Typing
  | EndOfConversation | Event | Invoke | InvokeResponse | DeleteUserData | MessageUpdate
  | MessageDelete | InstallationUpdate | MessageReaction | Suggestion | Trace | Handoff

datatype Channels = Msteams | Cortana | Skype | Skypeforbusiness | Emulator | OtherChannel

datatype InputHints = AcceptingInput | ExpectingInput | IgnoringInput

datatype ActionTypes = Signin | OpenUrl

datatype error = Error string | TypeError string

type_synonym JsObject = "string \<rightharpoonup> string"

type_synonym TokenResponse = JsObject

record Activity =
  activity_type :: ActivityTypes
  activity_name :: "string option"
  activity_text :: "string option"
  activity_value :: "JsObject option"
  channelId :: Channels
  serviceUrl :: "string option"
  from_id :: string

text \<open>
  The names of the three operations are constants of botbuilder-core; the prompt only
  compares \<open>activity.name\<close> with them, so they are parameters of the model.
\<close>

record CoreNames =
  tokenResponseEventName :: string
  verifyStateOperationName :: string
  tokenExchangeOperationName :: string

text \<open>
  Modelled from the spec: the members of \<open>StatusCodes\<close> (botbuilder-core) that the
  prompt replies with, 200 on success, 400 for a malformed token exchange request, 409
  when the exchange yields nothing, 502 when the adapter cannot exchange tokens.
\<close>

definition StatusCodes_OK :: nat where
  "StatusCodes_OK = 200"

definition StatusCodes_BAD_REQUEST :: nat where
  "StatusCodes_BAD_REQUEST = 400"

definition StatusCodes_CONFLICT :: nat where
  "StatusCodes_CONFLICT = 409"

definition StatusCodes_BAD_GATEWAY :: nat where
  "StatusCodes_BAD_GATEWAY = 502"

subsection \<open>What the prompt sends\<close>

text \<open>
  \<open>TokenExchangeInvokeResponse\<close> is the class of the source: its constructor takes the
  id, the connection name and the failure detail, in this order.
\<close>

datatype TokenExchangeInvokeResponse =
  TokenExchangeInvokeResponse "string option" string "string option"

datatype Attachment =
    OAuthCardAttachment string string "string option" "string option" "string option" ActionTypes
  | SigninCardAttachment string "string option" "string option"
  | OtherAttachment

record MessageActivity =
  message_text :: "string option"
  inputHint :: "InputHints option"
  attachments :: "Attachment list option"

datatype PromptMessage = PromptText string | PromptActivity MessageActivity

text \<open>
  The argument of \<open>sendActivity\<close>: an invoke response \<open>{type: 'invokeResponse', value:
  {status, body}}\<close> (the body is absent in the replies to a verification invoke), or a
  message given as a text or as an activity. The attachments of a message are the
  cards of \<open>CardFactory\<close>: \<open>oauthCard(connectionName, title, text, link,
  tokenExchangeResource)\<close> with the type of its button, \<open>signinCard(title, url,
  text)\<close>, or an attachment of any other content type.
\<close>

datatype Outgoing =
    InvokeResponseOut nat "TokenExchangeInvokeResponse option"
  | MessageOut PromptMessage

subsection \<open>The adapter and the turn context\<close>

record SignInResource =
  signInLink :: "string option"
  tokenExchangeResource :: "string option"

text \<open>
  The adapter is an external collaborator. A method the adapter object lacks is \<open>None\<close>
  (\<open>'getUserToken' in context.adapter\<close> is false); a method it has maps its arguments
  to a result or to the exception it throws. \<open>getUserToken\<close> takes the connection name,
  the code and the credentials; \<open>exchangeToken\<close> the connection name, the user id and
  the token of the request; \<open>getSignInResource\<close> the connection name, the user id and
  the credentials.
\<close>

record Adapter =
  adapter_name :: "string option"
  adapter_getUserToken ::
    "(string \<Rightarrow> string option \<Rightarrow> string option \<Rightarrow> error + TokenResponse option) option"
  adapter_exchangeToken ::
    "(string \<Rightarrow> string \<Rightarrow> string option \<Rightarrow> error + TokenResponse option) option"
  adapter_getSignInResource ::
    "(string \<Rightarrow> string \<Rightarrow> string option \<Rightarrow> error + SignInResource) option"

text \<open>
  Every call that leaves the prompt is recorded, in order, in the \<open>effects\<close> of the turn
  context: the activities sent and the calls to the adapter and to the validator.
\<close>

datatype Effect =
    Sent Outgoing
  | GetUserTokenCall "string option"
  | ExchangeTokenCall string "string option"
  | GetSignInResourceCall string
  | ValidatorCall int bool

record TurnContext =
  activity :: Activity
  adapter :: Adapter
  responded :: bool
  botIdentity :: "(string \<times> string) list option"
  loginTimeout :: "int option"
  effects :: "Effect list"

text \<open>
  Modelled from the spec: \<open>TurnContext.sendActivity\<close> of botbuilder-core, which is not
  among the sources. The activity goes out through the channel and the turn has then
  produced output (\<open>responded\<close>). Channel transport is outside the model, so sending
  does not fail.
\<close>

definition sendActivity :: "Outgoing \<Rightarrow> TurnContext \<Rightarrow> TurnContext" where
  "sendActivity a context =
     context\<lparr>responded := True, effects := effects context @ [Sent a]\<rparr>"

section \<open>OAuthPrompt\<close>

record OAuthPromptSettings =
  oAuthAppCredentials :: "string option"
  connectionName :: string
  title :: string
  settings_text :: "string option"
  timeout :: "int option"

record PromptRecognizerResult =
  succeeded :: bool
  recognized_value :: "TokenResponse option"

subsection \<open>The tests on the inbound activity\<close>

definition isTokenResponseEvent :: "CoreNames \<Rightarrow> TurnContext \<Rightarrow> bool" where
  "isTokenResponseEvent k context =
     (activity_type (activity context) = Event
      \<and> activity_name (activity context) = Some (tokenResponseEventName k))"

definition isTeamsVerificationInvoke :: "CoreNames \<Rightarrow> TurnContext \<Rightarrow> bool" where
  "isTeamsVerificationInvoke k context =
     (activity_type (activity context) = Invoke
      \<and> activity_name (activity context) = Some (verifyStateOperationName k))"

definition isTokenExchangeRequestInvoke :: "CoreNames \<Rightarrow> TurnContext \<Rightarrow> bool" where
  "isTokenExchangeRequestInvoke k context =
     (activity_type (activity context) = Invoke
      \<and> activity_name (activity context) = Some (tokenExchangeOperationName k))"

definition isTokenExchangeRequest :: "JsObject \<Rightarrow> bool" where
  "isTokenExchangeRequest obj = (if obj ''token'' \<noteq> None then True else False)"

subsection \<open>getUserToken\<close>

definition getUserToken ::
  "OAuthPromptSettings \<Rightarrow> string option \<Rightarrow> TurnContext
     \<Rightarrow> (error + TokenResponse option) \<times> TurnContext" where
  "getUserToken settings code context =
     (case adapter_getUserToken (adapter context) of
        None \<Rightarrow>
          (Inl (Error ''OAuthPrompt.getUserToken(): not supported for the current adapter.''),
           context)
      | Some provider \<Rightarrow>
          (provider (connectionName settings) code (oAuthAppCredentials settings),
           context\<lparr>effects := effects context @ [GetUserTokenCall code]\<rparr>))"

subsection \<open>recognizeToken\<close>

definition getTokenExchangeInvokeResponse ::
  "OAuthPromptSettings \<Rightarrow> nat \<Rightarrow> string option \<Rightarrow> string option \<Rightarrow> Outgoing" where
  "getTokenExchangeInvokeResponse settings status failureDetail id' =
     InvokeResponseOut status
       (Some (TokenExchangeInvokeResponse id' (connectionName settings) failureDetail))"

text \<open>
  The regular expression \<open>/(\d{6})/\<close>: the leftmost six consecutive decimal digits of
  the text. A missing text is matched as the string \<open>undefined\<close>, as \<open>exec\<close> does.
\<close>

definition isDigit :: "char \<Rightarrow> bool" where
  "isDigit c = (c \<in> set ''0123456789'')"

fun execSixDigits :: "string \<Rightarrow> string option" where
  "execSixDigits [] = None"
| "execSixDigits (c # cs) =
     (if 6 \<le> length (c # cs) \<and> list_all isDigit (take 6 (c # cs))
      then Some (take 6 (c # cs))
      else execSixDigits cs)"

definition recognizerResult :: "TokenResponse option \<Rightarrow> PromptRecognizerResult" where
  "recognizerResult token =
     (if token \<noteq> None then \<lparr>succeeded = True, recognized_value = token\<rparr>
      else \<lparr>succeeded = False, recognized_value = None\<rparr>)"

definition missingRequestDetail :: string where
  "missingRequestDetail = ''The bot received an InvokeActivity that is missing a TokenExchangeInvokeRequest value. This is required to be sent with the InvokeActivity.''"

definition connectionMismatchDetail :: string where
  "connectionMismatchDetail = ''The bot received an InvokeActivity with a TokenExchangeInvokeRequest containing a ConnectionName that does not match the ConnectionName'' @ ''expected by the bots active OAuthPrompt. Ensure these names match when sending the InvokeActivityInvalid ConnectionName in the TokenExchangeInvokeRequest''"

definition notSupportedDetail :: string where
  "notSupportedDetail = ''The bot's BotAdapter does not support token exchange operations. Ensure the bot's Adapter supports the ExtendedUserTokenProvider interface.''"

definition unableToExchangeDetail :: string where
  "unableToExchangeDetail = ''The bot is unable to exchange token. Proceed with regular login.''"

text \<open>The branch of a Teams verification invoke, with its \<open>try\<close> and \<open>catch\<close>.\<close>

definition recognizeTeamsVerification ::
  "OAuthPromptSettings \<Rightarrow> TurnContext \<Rightarrow> (error + TokenResponse option) \<times> TurnContext" where
  "recognizeTeamsVerification settings context =
     (case activity_value (activity context) of
        None \<Rightarrow> (Inl (TypeError ''Cannot read property 'state' of undefined''), context)
      | Some v \<Rightarrow>
          (case getUserToken settings (v ''state'') context of
             (Inr token, c1) \<Rightarrow>
               (if token \<noteq> None
                then (Inr token, sendActivity (InvokeResponseOut StatusCodes_OK None) c1)
                else (Inr token, sendActivity (InvokeResponseOut 404 None) c1))
           | (Inl e, c1) \<Rightarrow>
               (Inr None, sendActivity (InvokeResponseOut 500 None) c1)))"

text \<open>The branch of a token exchange invoke.\<close>

definition recognizeTokenExchange ::
  "OAuthPromptSettings \<Rightarrow> TurnContext \<Rightarrow> (error + TokenResponse option) \<times> TurnContext" where
  "recognizeTokenExchange settings context =
     (case activity_value (activity context) of
        None \<Rightarrow>
          (Inr None,
           sendActivity
             (getTokenExchangeInvokeResponse settings StatusCodes_BAD_REQUEST
                (Some missingRequestDetail) None) context)
      | Some v \<Rightarrow>
          if \<not> isTokenExchangeRequest v then
            (Inr None,
             sendActivity
               (getTokenExchangeInvokeResponse settings StatusCodes_BAD_REQUEST
                  (Some missingRequestDetail) None) context)
          else if v ''connectionName'' \<noteq> Some (connectionName settings) then
            (Inr None,
             sendActivity
               (getTokenExchangeInvokeResponse settings StatusCodes_BAD_REQUEST
                  (Some connectionMismatchDetail) None) context)
          else
            (case adapter_exchangeToken (adapter context) of
               None \<Rightarrow>
                 (Inl (Error ''OAuthPrompt.recognizeToken(): not supported by the current adapter''),
                  sendActivity
                    (getTokenExchangeInvokeResponse settings StatusCodes_BAD_GATEWAY
                       (Some notSupportedDetail) None) context)
             | Some provider \<Rightarrow>
                 (let c1 = context\<lparr>effects := effects context
                            @ [ExchangeTokenCall (from_id (activity context)) (v ''token'')]\<rparr>
                  in case provider (connectionName settings) (from_id (activity context))
                            (v ''token'') of
                       Inl e \<Rightarrow> (Inl e, c1)
                     | Inr tokenExchangeResponse \<Rightarrow>
                         (case tokenExchangeResponse of
                            None \<Rightarrow>
                              (Inr None,
                               sendActivity
                                 (getTokenExchangeInvokeResponse settings StatusCodes_CONFLICT
                                    (Some unableToExchangeDetail) None) c1)
                          | Some r \<Rightarrow>
                              if r ''token'' = None \<or> r ''token'' = Some [] then
                                (Inr None,
                                 sendActivity
                                   (getTokenExchangeInvokeResponse settings StatusCodes_CONFLICT
                                      (Some unableToExchangeDetail) None) c1)
                              else
                                (Inr (Some (Map.empty(''channelId'' := r ''channelId'',
                                              ''connectionName'' := r ''connectionName'',
                                              ''token'' := r ''token'',
                                              ''expiration'' := None))),
                                 sendActivity
                                   (getTokenExchangeInvokeResponse settings StatusCodes_OK
                                      None (v ''id'')) c1)))))"

text \<open>The branch of a plain message: the six digit code, when the text holds one.\<close>

definition recognizeMagicCode ::
  "OAuthPromptSettings \<Rightarrow> TurnContext \<Rightarrow> (error + TokenResponse option) \<times> TurnContext" where
  "recognizeMagicCode settings context =
     (case execSixDigits
             (case activity_text (activity context) of None \<Rightarrow> ''undefined'' | Some t \<Rightarrow> t) of
        None \<Rightarrow> (Inr None, context)
      | Some code \<Rightarrow> getUserToken settings (Some code) context)"

definition recognizeToken ::
  "CoreNames \<Rightarrow> OAuthPromptSettings \<Rightarrow> TurnContext
     \<Rightarrow> (error + PromptRecognizerResult) \<times> TurnContext" where
  "recognizeToken k settings context =
     (case (if isTokenResponseEvent k context then
              (Inr (activity_value (activity context)), context)
            else if isTeamsVerificationInvoke k context then
              recognizeTeamsVerification settings context
            else if isTokenExchangeRequestInvoke k context then
              recognizeTokenExchange settings context
            else if activity_type (activity context) = Message then
              recognizeMagicCode settings context
            else (Inr None, context)) of
        (Inl e, c1) \<Rightarrow> (Inl e, c1)
      | (Inr token, c1) \<Rightarrow> (Inr (recognizerResult token), c1))"

subsection \<open>The state of the prompt\<close>

record PromptOptions =
  prompt :: "PromptMessage option"
  retryPrompt :: "PromptMessage option"

text \<open>
  \<open>OAuthPromptState\<close>, the state of the active dialog instance: the validator's state
  (an object that holds \<open>attemptCount\<close>), the options and the time at which the prompt
  expires, in milliseconds since the epoch.
\<close>

record OAuthPromptState =
  state :: "string \<rightharpoonup> int"
  options :: PromptOptions
  expires :: int

record DialogContext =
  turnContext :: TurnContext
  activeDialogState :: OAuthPromptState

text \<open>
  The result of a turn of the prompt: \<open>Dialog.EndOfTurn\<close>, or what
  \<open>dc.endDialog(value)\<close> returns. \<open>DialogContext.endDialog\<close> is not among the sources;
  the result records the call and its argument.
\<close>

datatype PromptOutcome = EndOfTurn | EndDialog "TokenResponse option"

text \<open>
  The validator is supplied by the caller. It is given the \<open>PromptValidatorContext\<close>
  and answers with its verdict or the exception it throws and the activities it sent
  through the context. \<open>state.state\<close>, \<open>recognized\<close> and \<open>state.options\<close> are handed to
  it by reference, and \<open>continueDialog\<close> reads \<open>recognized.value\<close> and
  \<open>state.options.retryPrompt\<close> after the call: the answer of the validator also holds
  these three objects as it leaves them.
\<close>

record PromptValidatorContext =
  validator_context :: TurnContext
  validator_recognized :: PromptRecognizerResult
  validator_state :: "string \<rightharpoonup> int"
  validator_options :: PromptOptions
  attemptCount :: int

type_synonym PromptValidator =
  "PromptValidatorContext
     \<Rightarrow> (error + bool) \<times> Outgoing list \<times> (string \<rightharpoonup> int) \<times> PromptRecognizerResult
         \<times> PromptOptions"

text \<open>The truth value of \<open>state.options.retryPrompt\<close>: an empty text is falsy.\<close>

definition truthyPrompt :: "PromptMessage option \<Rightarrow> bool" where
  "truthyPrompt p =
     (case p of None \<Rightarrow> False | Some (PromptText t) \<Rightarrow> t \<noteq> [] | Some (PromptActivity a) \<Rightarrow> True)"

subsection \<open>The attempt count\<close>

text \<open>
  \<open>attemptCount\<close> is a JavaScript number, a double, and \<open>++x\<close> stores the double nearest
  to \<open>x + 1\<close>, a tie going to the even significand. The counts of the model are the
  integers among the doubles: every integer up to \<open>2 ^ 53 = 9007199254740992\<close> in
  absolute value, and from there on the multiples of \<open>ulp\<close>, the distance between
  neighbouring doubles (2 up to \<open>2 ^ 54\<close>, 4 up to \<open>2 ^ 55\<close>, and so on). A validator
  may store any value under \<open>attemptCount\<close>; one that is not an integer (a fraction,
  \<open>NaN\<close>, a string) has no counterpart in the model.
\<close>

function ulp :: "nat \<Rightarrow> nat" where
  "ulp n = (if n < 9007199254740992 then 1 else 2 * ulp (n div 2))"
  by pat_completeness auto
termination
proof (relation "measure (\<lambda>n. n)")
  show "wf (measure (\<lambda>n. n))" by simp
next
  fix n :: nat
  assume "\<not> n < 9007199254740992"
  then have "0 < n" by linarith
  then have "n div 2 < n" by simp
  then show "(n div 2, n) \<in> measure (\<lambda>n. n)" by simp
qed

declare ulp.simps [simp del]

definition nearestDouble :: "int \<Rightarrow> int" where
  "nearestDouble x =
     (let n = nat \<bar>x\<bar>;
          q = ulp n;
          r = n mod q;
          lo = n - r;
          m = (if 2 * r < q then lo
               else if q < 2 * r then lo + q
               else if even (lo div q) then lo else lo + q)
      in if x < 0 then - int m else int m)"

text \<open>The value of \<open>++x\<close>, which is also the value stored in \<open>x\<close>.\<close>

definition preIncrement :: "int \<Rightarrow> int" where
  "preIncrement x = nearestDouble (x + 1)"

subsection \<open>continueDialog\<close>

text \<open>
  The branch of \<open>continueDialog\<close> taken when the prompt has not timed out (lines 188 to
  216): initialise \<open>attemptCount\<close>, validate, and return the recognized value or send
  the retry prompt. \<open>isMessage\<close>, \<open>recognized\<close>, the context and the state are the
  local variables of \<open>continueDialog\<close> at that point.
\<close>

definition validateRecognized ::
  "PromptValidator option \<Rightarrow> bool \<Rightarrow> PromptRecognizerResult \<Rightarrow> TurnContext
     \<Rightarrow> OAuthPromptState \<Rightarrow> (error + PromptOutcome) \<times> DialogContext" where
  "validateRecognized validator isMessage recognized c1 state0 =
     (let state1 =
            (if state state0 ''attemptCount'' = None
             then state0\<lparr>state := (state state0)(''attemptCount'' \<mapsto> 0)\<rparr>
             else state0)
      in case (case validator of
                 Some v \<Rightarrow>
                   (let count = preIncrement (case state state1 ''attemptCount'' of
                                                None \<Rightarrow> 0 | Some n \<Rightarrow> n);
                        (verdict, sends, vstate, vrecognized, voptions) =
                          v \<lparr>validator_context = c1, validator_recognized = recognized,
                             validator_state = (state state1)(''attemptCount'' \<mapsto> count),
                             validator_options = options state1,
                             attemptCount = count\<rparr>
                    in (verdict,
                        foldl (\<lambda>c a. sendActivity a c)
                          (c1\<lparr>effects := effects c1
                               @ [ValidatorCall count (succeeded recognized)]\<rparr>) sends,
                        state1\<lparr>state := vstate, options := voptions\<rparr>,
                        vrecognized))
               | None \<Rightarrow>
                   (if succeeded recognized then (Inr True, c1, state1, recognized)
                    else (Inr False, c1, state1, recognized))) of
           (Inl e, c2, state2, recognized2) \<Rightarrow>
             (Inl e, \<lparr>turnContext = c2, activeDialogState = state2\<rparr>)
         | (Inr isValid, c2, state2, recognized2) \<Rightarrow>
             if isValid then
               (Inr (EndDialog (recognized_value recognized2)),
                \<lparr>turnContext = c2, activeDialogState = state2\<rparr>)
             else
               (Inr EndOfTurn,
                \<lparr>turnContext =
                   (case retryPrompt (options state2) of
                      None \<Rightarrow> c2
                    | Some p \<Rightarrow>
                        if \<not> responded c2 \<and> isMessage \<and> truthyPrompt (Some p)
                        then sendActivity (MessageOut p) c2 else c2),
                 activeDialogState = state2\<rparr>))"

text \<open>\<open>now\<close> is the value of \<open>new Date().getTime()\<close> on this turn.\<close>

definition continueDialog ::
  "CoreNames \<Rightarrow> OAuthPromptSettings \<Rightarrow> PromptValidator option \<Rightarrow> int \<Rightarrow> DialogContext
     \<Rightarrow> (error + PromptOutcome) \<times> DialogContext" where
  "continueDialog k settings validator now dc =
     (case recognizeToken k settings (turnContext dc) of
        (Inl e, c1) \<Rightarrow> (Inl e, dc\<lparr>turnContext := c1\<rparr>)
      | (Inr recognized, c1) \<Rightarrow>
          (let state0 = activeDialogState dc;
               isMessage = (activity_type (activity c1) = Message);
               hasTimedOut = (isMessage \<and> now > expires state0)
           in if hasTimedOut then (Inr (EndDialog None), dc\<lparr>turnContext := c1\<rparr>)
              else validateRecognized validator isMessage recognized c1 state0))"

subsection \<open>Sending the login card\<close>

definition channelSupportsOAuthCard :: "Channels \<Rightarrow> bool" where
  "channelSupportsOAuthCard c =
     (case c of Msteams \<Rightarrow> False | Cortana \<Rightarrow> False | Skype \<Rightarrow> False
      | Skypeforbusiness \<Rightarrow> False | _ \<Rightarrow> True)"

definition isOAuthCardSupported :: "TurnContext \<Rightarrow> bool" where
  "isOAuthCardSupported context =
     (case adapter_name (adapter context) of
        None \<Rightarrow> channelSupportsOAuthCard (channelId (activity context))
      | Some n \<Rightarrow>
          if n \<noteq> [] \<and> n \<in> set [''Facebook Adapter'', ''Google Hangouts Adapter'',
                ''Slack Adapter'', ''Twilio SMS Adapter'', ''Web Adapter'', ''Webex Adapter'',
                ''Botkit CMS'']
          then False
          else channelSupportsOAuthCard (channelId (activity context)))"

definition toLowerCase :: "string \<Rightarrow> string" where
  "toLowerCase s =
     map (\<lambda>c. if c \<in> set ''ABCDEFGHIJKLMNOPQRSTUVWXYZ''
              then char_of (of_char c + (32::nat)) else c) s"

definition isFromStreamingConnection :: "Activity \<Rightarrow> bool" where
  "isFromStreamingConnection a =
     (case serviceUrl a of
        None \<Rightarrow> False
      | Some url \<Rightarrow> url \<noteq> [] \<and> take 4 (toLowerCase url) \<noteq> ''http'')"

definition isOAuthCard :: "Attachment \<Rightarrow> bool" where
  "isOAuthCard a = (case a of OAuthCardAttachment _ _ _ _ _ _ \<Rightarrow> True | _ \<Rightarrow> False)"

definition isSigninCard :: "Attachment \<Rightarrow> bool" where
  "isSigninCard a = (case a of SigninCardAttachment _ _ _ \<Rightarrow> True | _ \<Rightarrow> False)"

text \<open>
  The call \<open>context.adapter.getSignInResource(...)\<close>; on an adapter without the method
  the call is a \<open>TypeError\<close>.
\<close>

definition getSignInResource ::
  "OAuthPromptSettings \<Rightarrow> TurnContext \<Rightarrow> (error + SignInResource) \<times> TurnContext" where
  "getSignInResource settings context =
     (case adapter_getSignInResource (adapter context) of
        None \<Rightarrow> (Inl (TypeError ''context.adapter.getSignInResource is not a function''), context)
      | Some provider \<Rightarrow>
          (provider (connectionName settings) (from_id (activity context))
             (oAuthAppCredentials settings),
           context\<lparr>effects := effects context
             @ [GetSignInResourceCall (from_id (activity context))]\<rparr>))"

text \<open>
  \<open>isSkillClaim\<close> (skillsHelpers) is not among the sources and is a parameter. The
  identity of the bot in the turn state is the list of its claims. \<open>loginTimeout\<close> is
  the entry of the turn state under \<open>OAuthLoginTimeoutKey\<close>.
\<close>

text \<open>
  The block of \<open>sendOAuthCardAsync\<close> that adds the login card as needed (lines 275 to
  321): \<open>cards0\<close> are the attachments of the outgoing message, and the result is the
  attachments after the block.
\<close>

definition addLoginCard ::
  "((string \<times> string) list \<Rightarrow> bool) \<Rightarrow> OAuthPromptSettings \<Rightarrow> Attachment list
     \<Rightarrow> TurnContext \<Rightarrow> (error + Attachment list) \<times> TurnContext" where
  "addLoginCard isSkillClaim settings cards0 context =
     (if isOAuthCardSupported context then
        (if length (filter isOAuthCard cards0) = 0 then
           (case getSignInResource settings context of
              (Inl e, c1) \<Rightarrow> (Inl e, c1)
            | (Inr signInResource, c1) \<Rightarrow>
                (let useLink =
                       ((case botIdentity context of
                           None \<Rightarrow> False | Some claims \<Rightarrow> isSkillClaim claims)
                        \<or> isFromStreamingConnection (activity context)
                        \<or> oAuthAppCredentials settings \<noteq> None);
                     cardActionType =
                       (if useLink \<and> channelId (activity context) = Emulator
                        then OpenUrl else Signin);
                     link = (if useLink then signInLink signInResource else None)
                 in (Inr (cards0
                       @ [OAuthCardAttachment (connectionName settings)
                            (title settings) (settings_text settings) link
                            (tokenExchangeResource signInResource) cardActionType]),
                     c1)))
         else (Inr cards0, context))
      else
        (if length (filter isSigninCard cards0) = 0 then
           (case getSignInResource settings context of
              (Inl e, c1) \<Rightarrow> (Inl e, c1)
            | (Inr signInResource, c1) \<Rightarrow>
                (Inr (cards0
                   @ [SigninCardAttachment (title settings)
                        (signInLink signInResource) (settings_text settings)]),
                 c1))
         else (Inr cards0, context)))"

text \<open>
  \<open>sendOAuthCardAsync\<close> returns nothing, but it changes its argument: the outgoing
  message \<open>{...prompt}\<close> is a shallow copy of a prompt that is an activity, so the two
  share the array of attachments, and the login card is pushed into that array. The
  result of the model is the prompt as the call leaves it. A prompt that is a text, or an
  activity whose attachments are not an array, is left as it was.
\<close>

definition sendOAuthCardAsync ::
  "((string \<times> string) list \<Rightarrow> bool) \<Rightarrow> OAuthPromptSettings \<Rightarrow> PromptMessage option
     \<Rightarrow> TurnContext \<Rightarrow> (error + PromptMessage option) \<times> TurnContext" where
  "sendOAuthCardAsync isSkillClaim settings prompt' context =
     (if adapter_getUserToken (adapter context) = None then
        (Inl (Error ''OAuthPrompt.sendOAuthCardAsync(): not supported for the current adapter.''),
         context)
      else
        (let msg =
               (case prompt' of
                  Some (PromptActivity a) \<Rightarrow> a
                | Some (PromptText t) \<Rightarrow>
                    \<lparr>message_text = Some t, inputHint = Some AcceptingInput, attachments = None\<rparr>
                | None \<Rightarrow>
                    \<lparr>message_text = None, inputHint = Some AcceptingInput, attachments = None\<rparr>);
             cards0 = (case attachments msg of None \<Rightarrow> [] | Some as \<Rightarrow> as)
         in case addLoginCard isSkillClaim settings cards0 context of
              (Inl e, c1) \<Rightarrow> (Inl e, c1)
            | (Inr cards, c1) \<Rightarrow>
                (let c2 =
                       (if (loginTimeout c1 = None \<or> loginTimeout c1 = Some 0)
                           \<and> timeout settings \<noteq> None \<and> timeout settings \<noteq> Some 0
                        then c1\<lparr>loginTimeout := timeout settings\<rparr> else c1)
                 in (Inr (case prompt' of
                            Some (PromptActivity a) \<Rightarrow>
                              (case attachments a of
                                 None \<Rightarrow> prompt'
                               | Some as \<Rightarrow> Some (PromptActivity (a\<lparr>attachments := Some cards\<rparr>)))
                          | _ \<Rightarrow> prompt'),
                     sendActivity (MessageOut (PromptActivity (msg\<lparr>attachments := Some cards\<rparr>)))
                       c2))))"

subsection \<open>beginDialog\<close>

definition ensureInputHint :: "PromptMessage option \<Rightarrow> PromptMessage option" where
  "ensureInputHint p =
     (case p of
        Some (PromptActivity a) \<Rightarrow>
          if inputHint a = None then Some (PromptActivity (a\<lparr>inputHint := Some AcceptingInput\<rparr>))
          else p
      | _ \<Rightarrow> p)"

text \<open>\<open>now\<close> is the value of \<open>new Date().getTime()\<close> when the state is initialised.\<close>

definition beginDialog ::
  "((string \<times> string) list \<Rightarrow> bool) \<Rightarrow> OAuthPromptSettings \<Rightarrow> PromptOptions option \<Rightarrow> int
     \<Rightarrow> DialogContext \<Rightarrow> (error + PromptOutcome) \<times> DialogContext" where
  "beginDialog isSkillClaim settings options' now dc =
     (let o0 = (case options' of None \<Rightarrow> \<lparr>prompt = None, retryPrompt = None\<rparr> | Some x \<Rightarrow> x);
          o1 = o0\<lparr>prompt := ensureInputHint (prompt o0)\<rparr>;
          o2 = o1\<lparr>retryPrompt := ensureInputHint (retryPrompt o1)\<rparr>;
          timeout' = (case timeout settings of Some t \<Rightarrow> t | None \<Rightarrow> 900000);
          state0 = \<lparr>state = Map.empty, options = o2, expires = now + timeout'\<rparr>
      in case getUserToken settings None (turnContext dc) of
           (Inl e, c1) \<Rightarrow> (Inl e, \<lparr>turnContext = c1, activeDialogState = state0\<rparr>)
         | (Inr output, c1) \<Rightarrow>
             if output \<noteq> None then
               (Inr (EndDialog output), \<lparr>turnContext = c1, activeDialogState = state0\<rparr>)
             else
               (case sendOAuthCardAsync isSkillClaim settings (prompt (options state0)) c1 of
                  (Inl e, c2) \<Rightarrow> (Inl e, \<lparr>turnContext = c2, activeDialogState = state0\<rparr>)
                | (Inr prompt2, c2) \<Rightarrow>
                    (Inr EndOfTurn,
                     \<lparr>turnContext = c2,
                      activeDialogState = state0\<lparr>options := o2\<lparr>prompt := prompt2\<rparr>\<rparr>\<rparr>)))"

section \<open>DialogManager\<close>

text \<open>
  The turn driver works on a \<open>DialogContext\<close>, which is not among the sources. Its
  state (the dialog stack with the memory scopes) is a type parameter \<open>'s\<close>, and its
  operations are parameters: each maps the state to a result, or to the exception it
  throws, and the next state. \<open>emptyDialogState\<close> is the default \<open>{}\<close> of the
  \<open>_dialogs\<close> property.
\<close>

datatype DialogTurnStatus = Empty | Waiting | Complete | Cancelled

record DialogTurnResult =
  status :: DialogTurnStatus
  result :: "JsObject option"

record DialogManagerResult =
  turnResult :: DialogTurnResult

record 's DialogContextOps =
  emptyDialogState :: 's
  loadAllScopes :: "'s \<Rightarrow> error + 's"
  activeDialog :: "'s \<Rightarrow> bool"
  dc_continueDialog :: "'s \<Rightarrow> (error + DialogTurnResult) \<times> 's"
  dc_beginDialog :: "string \<Rightarrow> 's \<Rightarrow> (error + DialogTurnResult) \<times> 's"
  dc_emitEvent :: "string \<Rightarrow> error \<Rightarrow> bool \<Rightarrow> bool \<Rightarrow> 's \<Rightarrow> (error + bool) \<times> 's"

text \<open>What the driver does in a turn, in order.\<close>

datatype TurnEffect =
    ClearConversation
  | LoadAllScopes
  | ContinueDialog
  | BeginDialog string
  | EmitEvent string error bool bool
  | SaveAllChanges
  | SendTrace

text \<open>
  The conversation state holds the two properties of the driver, \<open>_lastAccess\<close> and
  \<open>_dialogs\<close>. The time stamp is kept as an ISO string; the model keeps the
  milliseconds it stands for (\<open>toISOString\<close> and the \<open>Date\<close> constructor are inverse
  on the strings the driver writes). \<open>conversationState\<close> of the manager is what
  storage holds for the conversation, or \<open>None\<close> when the manager has none configured.
\<close>

record 's ConversationProps =
  lastAccess :: "int option"
  dialogs :: "'s option"

record 's DialogManager =
  rootDialogId :: "string option"
  conversationState :: "'s ConversationProps option"
  expireAfter :: "int option"

text \<open>
  Lines 115 to 127 of \<open>onTurn\<close>: read \<open>_lastAccess\<close> with the current time \<open>t0\<close> as its
  default (the accessor stores the default it returns), clear the conversation state
  when it has expired at the time \<open>t1\<close>, and write \<open>lastAccess\<close> back. The result is
  the cached state and whether it was cleared.
\<close>

definition refreshLastAccess ::
  "int option \<Rightarrow> int \<Rightarrow> int \<Rightarrow> 's ConversationProps \<Rightarrow> 's ConversationProps \<times> bool" where
  "refreshLastAccess expireAfter' t0 t1 stored =
     (let lastAccess' = (case lastAccess stored of None \<Rightarrow> t0 | Some a \<Rightarrow> a);
          cached1 = stored\<lparr>lastAccess := Some lastAccess'\<rparr>;
          expired = (case expireAfter' of None \<Rightarrow> False | Some e \<Rightarrow> t1 - lastAccess' \<ge> e);
          cached2 = (if expired then \<lparr>lastAccess = None, dialogs = None\<rparr> else cached1)
      in (cached2\<lparr>lastAccess := Some lastAccess'\<rparr>, expired))"

text \<open>The body of the \<open>try\<close> block: continue the active dialog, or begin the root dialog.\<close>

definition continueOrBegin ::
  "'s DialogContextOps \<Rightarrow> string \<Rightarrow> 's \<times> TurnEffect list
     \<Rightarrow> (error + DialogTurnResult) \<times> 's \<times> TurnEffect list" where
  "continueOrBegin ops rootDialogId' w =
     (case w of (s, es) \<Rightarrow>
        if activeDialog ops s then
          (case dc_continueDialog ops s of
             (Inl err, s1) \<Rightarrow> (Inl err, s1, es @ [ContinueDialog])
           | (Inr turnResult', s1) \<Rightarrow>
               if status turnResult' = Empty then
                 (case dc_beginDialog ops rootDialogId' s1 of
                    (r, s2) \<Rightarrow> (r, s2, es @ [ContinueDialog, BeginDialog rootDialogId']))
               else (Inr turnResult', s1, es @ [ContinueDialog]))
        else
          (case dc_beginDialog ops rootDialogId' s of
             (r, s1) \<Rightarrow> (r, s1, es @ [BeginDialog rootDialogId'])))"

text \<open>
  The loop \<open>while (true)\<close> around the \<open>try\<close> block. It ends when the block returns, when
  the error event is not handled, or when emitting the event throws; it goes round again
  when the event is handled. A loop that never ends is the value \<open>None\<close>.
\<close>

partial_function (option) runDialogs ::
  "'s DialogContextOps \<Rightarrow> string \<Rightarrow> 's \<times> TurnEffect list
     \<Rightarrow> ((error + DialogTurnResult) \<times> 's \<times> TurnEffect list) option" where
  "runDialogs ops rootDialogId' w =
     (case continueOrBegin ops rootDialogId' w of
        (Inr turnResult', s1, es1) \<Rightarrow> Some (Inr turnResult', s1, es1)
      | (Inl err, s1, es1) \<Rightarrow>
          (case dc_emitEvent ops ''error'' err True True s1 of
             (Inl err2, s2) \<Rightarrow> Some (Inl err2, s2, es1 @ [EmitEvent ''error'' err True True])
           | (Inr handled, s2) \<Rightarrow>
               if \<not> handled then Some (Inl err, s2, es1 @ [EmitEvent ''error'' err True True])
               else runDialogs ops rootDialogId' (s2, es1 @ [EmitEvent ''error'' err True True])))"

text \<open>
  \<open>onTurn\<close>. \<open>t0\<close> and \<open>t1\<close> are the two readings of the clock, the default of
  \<open>_lastAccess\<close> and \<open>now\<close>. The loop over \<open>initialTurnState.keys()\<close> is a \<open>for ... in\<close>
  over an iterator, which has no enumerable keys. The changes of the turn reach the
  conversation state of the manager in \<open>saveAllChanges\<close>; an exception leaves it as it
  was.
\<close>

definition onTurn ::
  "'s DialogContextOps \<Rightarrow> int \<Rightarrow> int \<Rightarrow> 's DialogManager
     \<Rightarrow> ((error + DialogManagerResult) \<times> 's DialogManager \<times> TurnEffect list) option" where
  "onTurn ops t0 t1 m =
     (case rootDialogId m of
        None \<Rightarrow>
          Some (Inl (Error ''DialogManager.onTurn: the bots 'rootDialog' has not been configured.''),
                m, [])
      | Some root \<Rightarrow>
          if root = [] then
            Some (Inl (Error ''DialogManager.onTurn: the bots 'rootDialog' has not been configured.''),
                  m, [])
          else
            (case conversationState m of
               None \<Rightarrow>
                 Some (Inl (Error ''DialogManager.onTurn: the bots 'conversationState' has not been configured.''),
                       m, [])
             | Some stored \<Rightarrow>
                 (case refreshLastAccess (expireAfter m) t0 t1 stored of
                    (cached, expired) \<Rightarrow>
                      (let es0 = (if expired then [ClearConversation] else []) @ [LoadAllScopes]
                       in case loadAllScopes ops
                                 (case dialogs cached of
                                    None \<Rightarrow> emptyDialogState ops | Some d \<Rightarrow> d) of
                            Inl e \<Rightarrow> Some (Inl e, m, es0)
                          | Inr s0 \<Rightarrow>
                              (case runDialogs ops root (s0, es0) of
                                 None \<Rightarrow> None
                               | Some (Inl err, s, es) \<Rightarrow> Some (Inl err, m, es)
                               | Some (Inr turnResult', s, es) \<Rightarrow>
                                   Some (Inr \<lparr>turnResult = turnResult'\<rparr>,
                                         m\<lparr>conversationState :=
                                             Some (cached\<lparr>dialogs := Some s\<rparr>)\<rparr>,
                                         es @ [SaveAllChanges, SendTrace]))))))"

text \<open>
  A conversation: the turns of the list, one after the other, each with its two readings
  of the clock. The result is the manager after the last turn and the effects of each
  turn.
\<close>

fun onTurns ::
  "'s DialogContextOps \<Rightarrow> (int \<times> int) list \<Rightarrow> 's DialogManager
     \<Rightarrow> ('s DialogManager \<times> TurnEffect list list) option" where
  "onTurns ops [] m = Some (m, [])"
| "onTurns ops ((t0, t1) # ts) m =
     (case onTurn ops t0 t1 m of
        None \<Rightarrow> None
      | Some (r, m1, es) \<Rightarrow>
          (case onTurns ops ts m1 of
             None \<Rightarrow> None
           | Some (m2, ess) \<Rightarrow> Some (m2, es # ess)))"

section \<open>Concrete turns\<close>

text \<open>
  The inputs at which the theorems below are evaluated: the names botbuilder-core gives
  the three operations, the settings of the scenarios (connection \<open>Contoso\<close>, timeout
  1000 ms), an adapter whose provider knows the code \<open>482913\<close> and exchanges the token
  \<open>x\<close>, an adapter whose provider already holds a token for the user, an adapter whose
  provider fails, an adapter without \<open>exchangeToken\<close>, and an adapter whose
  \<open>exchangeToken\<close> throws.
\<close>

definition coreNames :: CoreNames where
  "coreNames = \<lparr>tokenResponseEventName = ''tokens/response'',
                 verifyStateOperationName = ''signin/verifyState'',
                 tokenExchangeOperationName = ''signin/tokenExchange''\<rparr>"

definition contoso :: OAuthPromptSettings where
  "contoso = \<lparr>oAuthAppCredentials = None, connectionName = ''Contoso'', title = ''Sign in'',
               settings_text = None, timeout = Some 1000\<rparr>"

definition contosoToken :: TokenResponse where
  "contosoToken = [''connectionName'' \<mapsto> ''Contoso'', ''token'' \<mapsto> ''secret'']"

definition contosoResource :: SignInResource where
  "contosoResource = \<lparr>signInLink = Some ''https://login.example/contoso'',
                       tokenExchangeResource = None\<rparr>"

definition workingAdapter :: Adapter where
  "workingAdapter =
     \<lparr>adapter_name = None,
      adapter_getUserToken =
        Some (\<lambda>connection code credentials.
                if code = Some ''482913'' then Inr (Some contosoToken) else Inr None),
      adapter_exchangeToken =
        Some (\<lambda>connection user token.
                if token = Some ''x'' then Inr (Some contosoToken) else Inr None),
      adapter_getSignInResource = Some (\<lambda>connection user credentials. Inr contosoResource)\<rparr>"

definition signedInAdapter :: Adapter where
  "signedInAdapter =
     workingAdapter\<lparr>adapter_getUserToken :=
       Some (\<lambda>connection code credentials. Inr (Some contosoToken))\<rparr>"

definition failingAdapter :: Adapter where
  "failingAdapter =
     workingAdapter\<lparr>adapter_getUserToken :=
       Some (\<lambda>connection code credentials. Inl (Error ''token service unavailable''))\<rparr>"

definition plainAdapter :: Adapter where
  "plainAdapter = workingAdapter\<lparr>adapter_exchangeToken := None\<rparr>"

definition brokenExchangeAdapter :: Adapter where
  "brokenExchangeAdapter =
     workingAdapter\<lparr>adapter_exchangeToken :=
       Some (\<lambda>connection user token. Inl (Error ''exchange service unavailable''))\<rparr>"

definition inbound ::
  "Adapter \<Rightarrow> ActivityTypes \<Rightarrow> string option \<Rightarrow> string option \<Rightarrow> JsObject option
     \<Rightarrow> TurnContext" where
  "inbound a ty nm tx v =
     \<lparr>activity = \<lparr>activity_type = ty, activity_name = nm, activity_text = tx,
                   activity_value = v, channelId = OtherChannel,
                   serviceUrl = Some ''https://channel.example'', from_id = ''user-1''\<rparr>,
      adapter = a, responded = False, botIdentity = None, loginTimeout = None,
      effects = []\<rparr>"

text \<open>A prompt that began at time 0 with the settings above and the given options.\<close>

definition waiting :: "PromptOptions \<Rightarrow> (string \<rightharpoonup> int) \<Rightarrow> TurnContext \<Rightarrow> DialogContext" where
  "waiting opts st context =
     \<lparr>turnContext = context,
      activeDialogState = \<lparr>state = st, options = opts, expires = 1000\<rparr>\<rparr>"

text \<open>The dialog context right after the instance of the prompt has been pushed.\<close>

definition pushed :: "TurnContext \<Rightarrow> DialogContext" where
  "pushed context =
     \<lparr>turnContext = context,
      activeDialogState =
        \<lparr>state = Map.empty, options = \<lparr>prompt = None, retryPrompt = None\<rparr>, expires = 0\<rparr>\<rparr>"

definition tryAgain :: PromptOptions where
  "tryAgain = \<lparr>prompt = None, retryPrompt = Some (PromptText ''Please sign in.'')\<rparr>"

text \<open>
  Validators: one that accepts every answer, one that refuses every answer; both leave
  what they are handed as it is.
\<close>

definition accepting :: PromptValidator where
  "accepting p =
     (Inr True, [], validator_state p, validator_recognized p, validator_options p)"

definition refusing :: PromptValidator where
  "refusing p =
     (Inr False, [], validator_state p, validator_recognized p, validator_options p)"

text \<open>
  Turn drivers over a dialog state that counts the steps the dialogs have run. With
  \<open>waitingOps\<close> the root dialog waits in every turn. With \<open>recoveringOps\<close> the first
  step throws, the error event is handled and the next step waits. With \<open>faultyOps\<close> the
  first step throws an error that is handled, and the next step throws one that is not.
\<close>

definition waitingResult :: DialogTurnResult where
  "waitingResult = \<lparr>status = Waiting, result = None\<rparr>"

definition waitingOps :: "nat DialogContextOps" where
  "waitingOps =
     \<lparr>emptyDialogState = 0,
      loadAllScopes = Inr,
      activeDialog = (\<lambda>s. 0 < s),
      dc_continueDialog = (\<lambda>s. (Inr waitingResult, s + 1)),
      dc_beginDialog = (\<lambda>root s. (Inr waitingResult, s + 1)),
      dc_emitEvent = (\<lambda>name err bubble fromLeaf s. (Inr False, s))\<rparr>"

definition recoveringOps :: "nat DialogContextOps" where
  "recoveringOps =
     waitingOps\<lparr>dc_continueDialog :=
                  (\<lambda>s. if s = 1 then (Inl (Error ''first''), 2) else (Inr waitingResult, s + 1)),
                dc_emitEvent := (\<lambda>name err bubble fromLeaf s. (Inr True, s))\<rparr>"

definition faultyOps :: "nat DialogContextOps" where
  "faultyOps =
     waitingOps\<lparr>dc_continueDialog :=
                  (\<lambda>s. if s = 1 then (Inl (Error ''first''), 2) else (Inl (Error ''second''), 3)),
                dc_emitEvent :=
                  (\<lambda>name err bubble fromLeaf s. (Inr (err = Error ''first''), s))\<rparr>"

text \<open>
  A manager whose conversation was first accessed at time 0 and has a dialog on its
  stack; the conversation state expires after 1000 ms.
\<close>

definition manager :: "nat DialogManager" where
  "manager =
     \<lparr>rootDialogId = Some ''root'',
      conversationState = Some \<lparr>lastAccess = Some 0, dialogs = Some 1\<rparr>,
      expireAfter = Some 1000\<rparr>"

section \<open>Recognition of the token\<close>

lemma invoke_is_not_token_event:
  "activity_type (activity context) = Invoke \<Longrightarrow> \<not> isTokenResponseEvent k context"
  by (simp add: isTokenResponseEvent_def)

text \<open>
  Claim C6. A Teams verification invoke that carries a value is answered with exactly one
  invoke response: status 200 when the provider returns a token for the code, 404 when it
  returns none, 500 when the call throws (or the adapter has no \<open>getUserToken\<close>). In each
  case \<open>recognizeToken\<close> returns a result, never the exception: a token is recognized in
  the first case only.
\<close>

theorem teams_verification_replies:
  assumes "isTeamsVerificationInvoke k context"
      and "activity_value (activity context) = Some v"
  shows "recognizeToken k settings context =
     (case adapter_getUserToken (adapter context) of
        None \<Rightarrow>
          (Inr \<lparr>succeeded = False, recognized_value = None\<rparr>,
           context\<lparr>responded := True,
                   effects := effects context @ [Sent (InvokeResponseOut 500 None)]\<rparr>)
      | Some provider \<Rightarrow>
          (case provider (connectionName settings) (v ''state'') (oAuthAppCredentials settings) of
             Inl e \<Rightarrow>
               (Inr \<lparr>succeeded = False, recognized_value = None\<rparr>,
                context\<lparr>responded := True,
                        effects := effects context
                          @ [GetUserTokenCall (v ''state''), Sent (InvokeResponseOut 500 None)]\<rparr>)
           | Inr None \<Rightarrow>
               (Inr \<lparr>succeeded = False, recognized_value = None\<rparr>,
                context\<lparr>responded := True,
                        effects := effects context
                          @ [GetUserTokenCall (v ''state''), Sent (InvokeResponseOut 404 None)]\<rparr>)
           | Inr (Some token) \<Rightarrow>
               (Inr \<lparr>succeeded = True, recognized_value = Some token\<rparr>,
                context\<lparr>responded := True,
                        effects := effects context
                          @ [GetUserTokenCall (v ''state''), Sent (InvokeResponseOut 200 None)]\<rparr>)))"
proof -
  from assms(1) have inv: "activity_type (activity context) = Invoke"
    by (simp add: isTeamsVerificationInvoke_def)
  have step: "recognizeToken k settings context =
      (case recognizeTeamsVerification settings context of
         (Inl e, c1) \<Rightarrow> (Inl e, c1)
       | (Inr token, c1) \<Rightarrow> (Inr (recognizerResult token), c1))"
    using assms(1) invoke_is_not_token_event [OF inv, of k]
    by (simp add: recognizeToken_def)
  show ?thesis
    unfolding step
    by (simp add: recognizeTeamsVerification_def assms(2) getUserToken_def sendActivity_def
        recognizerResult_def StatusCodes_OK_def split: option.split sum.split)
qed

theorem teams_verification_replies_witness:
  "isTeamsVerificationInvoke coreNames
     (inbound failingAdapter Invoke (Some ''signin/verifyState'') None
        (Some [''state'' \<mapsto> ''482913'']))
   \<and> recognizeToken coreNames contoso
       (inbound failingAdapter Invoke (Some ''signin/verifyState'') None
          (Some [''state'' \<mapsto> ''482913'']))
     = (Inr \<lparr>succeeded = False, recognized_value = None\<rparr>,
        (inbound failingAdapter Invoke (Some ''signin/verifyState'') None
          (Some [''state'' \<mapsto> ''482913'']))
        \<lparr>responded := True,
         effects := [GetUserTokenCall (Some ''482913''), Sent (InvokeResponseOut 500 None)]\<rparr>)"
proof -
  let ?c = "inbound failingAdapter Invoke (Some ''signin/verifyState'') None
        (Some [''state'' \<mapsto> ''482913''])"
  have h1: "isTeamsVerificationInvoke coreNames ?c"
    by (simp add: isTeamsVerificationInvoke_def coreNames_def inbound_def)
  have h2: "activity_value (activity ?c) = Some [''state'' \<mapsto> ''482913'']"
    by (simp add: inbound_def)
  show ?thesis
    using h1 teams_verification_replies [OF h1 h2, of contoso]
    by (simp add: inbound_def failingAdapter_def workingAdapter_def)
qed

lemma continueDialog_raises:
  "recognizeToken k settings (turnContext dc) = (Inl e, c1)
   \<Longrightarrow> continueDialog k settings validator now dc = (Inl e, dc\<lparr>turnContext := c1\<rparr>)"
  by (simp add: continueDialog_def)

text \<open>
  Claim C3, as amended. A token exchange invoke (one that the earlier tests have not
  taken for a verification invoke) is checked in this order, with one invoke response for
  each outcome but the last: without a \<open>token\<close> in its value the reply is 400 and names
  the missing request; with a connection name other than the configured one the reply is
  400 and names the mismatch; on an adapter without \<open>exchangeToken\<close> the reply is 502 and
  an error is thrown, which \<open>continueDialog\<close> does not catch; otherwise the provider is
  called, and the reply is 409 when it returns nothing or no token, and 200 with the id of
  the request when it returns a token, which is then the recognized token. When the call
  of the provider throws, there is no reply: the exception leaves \<open>recognizeToken\<close>, and
  \<open>continueDialog\<close> does not catch it.
\<close>

theorem token_exchange_checks:
  assumes "isTokenExchangeRequestInvoke k context"
      and "\<not> isTeamsVerificationInvoke k context"
  shows "recognizeToken k settings context =
     (case activity_value (activity context) of
        None \<Rightarrow>
          (Inr \<lparr>succeeded = False, recognized_value = None\<rparr>,
           context\<lparr>responded := True,
                   effects := effects context
                     @ [Sent (InvokeResponseOut 400
                          (Some (TokenExchangeInvokeResponse None (connectionName settings)
                                   (Some missingRequestDetail))))]\<rparr>)
      | Some v \<Rightarrow>
          if v ''token'' = None then
            (Inr \<lparr>succeeded = False, recognized_value = None\<rparr>,
             context\<lparr>responded := True,
                     effects := effects context
                       @ [Sent (InvokeResponseOut 400
                            (Some (TokenExchangeInvokeResponse None (connectionName settings)
                                     (Some missingRequestDetail))))]\<rparr>)
          else if v ''connectionName'' \<noteq> Some (connectionName settings) then
            (Inr \<lparr>succeeded = False, recognized_value = None\<rparr>,
             context\<lparr>responded := True,
                     effects := effects context
                       @ [Sent (InvokeResponseOut 400
                            (Some (TokenExchangeInvokeResponse None (connectionName settings)
                                     (Some connectionMismatchDetail))))]\<rparr>)
          else
            (case adapter_exchangeToken (adapter context) of
               None \<Rightarrow>
                 (Inl (Error ''OAuthPrompt.recognizeToken(): not supported by the current adapter''),
                  context\<lparr>responded := True,
                          effects := effects context
                            @ [Sent (InvokeResponseOut 502
                                 (Some (TokenExchangeInvokeResponse None (connectionName settings)
                                          (Some notSupportedDetail))))]\<rparr>)
             | Some provider \<Rightarrow>
                 (case provider (connectionName settings) (from_id (activity context))
                         (v ''token'') of
                    Inl e \<Rightarrow>
                      (Inl e,
                       context\<lparr>effects := effects context
                         @ [ExchangeTokenCall (from_id (activity context)) (v ''token'')]\<rparr>)
                  | Inr None \<Rightarrow>
                      (Inr \<lparr>succeeded = False, recognized_value = None\<rparr>,
                       context\<lparr>responded := True,
                               effects := effects context
                                 @ [ExchangeTokenCall (from_id (activity context)) (v ''token''),
                                    Sent (InvokeResponseOut 409
                                      (Some (TokenExchangeInvokeResponse None
                                               (connectionName settings)
                                               (Some unableToExchangeDetail))))]\<rparr>)
                  | Inr (Some r) \<Rightarrow>
                      if r ''token'' = None \<or> r ''token'' = Some [] then
                        (Inr \<lparr>succeeded = False, recognized_value = None\<rparr>,
                         context\<lparr>responded := True,
                                 effects := effects context
                                   @ [ExchangeTokenCall (from_id (activity context)) (v ''token''),
                                      Sent (InvokeResponseOut 409
                                        (Some (TokenExchangeInvokeResponse None
                                                 (connectionName settings)
                                                 (Some unableToExchangeDetail))))]\<rparr>)
                      else
                        (Inr \<lparr>succeeded = True,
                              recognized_value =
                                Some (Map.empty(''channelId'' := r ''channelId'',
                                        ''connectionName'' := r ''connectionName'',
                                        ''token'' := r ''token'',
                                        ''expiration'' := None))\<rparr>,
                         context\<lparr>responded := True,
                                 effects := effects context
                                   @ [ExchangeTokenCall (from_id (activity context)) (v ''token''),
                                      Sent (InvokeResponseOut 200
                                        (Some (TokenExchangeInvokeResponse (v ''id'')
                                                 (connectionName settings) None)))]\<rparr>))))
   \<and> (\<forall>e c1. recognizeToken k settings context = (Inl e, c1)
         \<longrightarrow> continueDialog k settings validator now
               \<lparr>turnContext = context, activeDialogState = st\<rparr>
             = (Inl e, \<lparr>turnContext = c1, activeDialogState = st\<rparr>))"
proof -
  from assms(1) have inv: "activity_type (activity context) = Invoke"
    by (simp add: isTokenExchangeRequestInvoke_def)
  then have ev: "\<not> isTokenResponseEvent k context"
    by (simp add: isTokenResponseEvent_def)
  have step: "recognizeToken k settings context =
      (case recognizeTokenExchange settings context of
         (Inl e, c1) \<Rightarrow> (Inl e, c1)
       | (Inr token, c1) \<Rightarrow> (Inr (recognizerResult token), c1))"
    using assms ev by (simp add: recognizeToken_def)
  show ?thesis
    apply (intro conjI allI impI)
    subgoal
      unfolding step
      by (simp add: recognizeTokenExchange_def isTokenExchangeRequest_def
          getTokenExchangeInvokeResponse_def sendActivity_def recognizerResult_def
          StatusCodes_OK_def StatusCodes_BAD_REQUEST_def StatusCodes_CONFLICT_def
          StatusCodes_BAD_GATEWAY_def Let_def split: option.split sum.split)
    subgoal by (simp add: continueDialog_def)
    done
qed


theorem token_exchange_checks_witness:
  "isTokenExchangeRequestInvoke coreNames
     (inbound workingAdapter Invoke (Some ''signin/tokenExchange'') None
        (Some [''connectionName'' \<mapsto> ''Wrong'', ''token'' \<mapsto> ''x'']))
   \<and> \<not> isTeamsVerificationInvoke coreNames
     (inbound workingAdapter Invoke (Some ''signin/tokenExchange'') None
        (Some [''connectionName'' \<mapsto> ''Wrong'', ''token'' \<mapsto> ''x'']))
   \<and> recognizeToken coreNames contoso
       (inbound workingAdapter Invoke (Some ''signin/tokenExchange'') None
          (Some [''connectionName'' \<mapsto> ''Wrong'', ''token'' \<mapsto> ''x'']))
     = (Inr \<lparr>succeeded = False, recognized_value = None\<rparr>,
        (inbound workingAdapter Invoke (Some ''signin/tokenExchange'') None
          (Some [''connectionName'' \<mapsto> ''Wrong'', ''token'' \<mapsto> ''x'']))
        \<lparr>responded := True,
         effects := [Sent (InvokeResponseOut 400
                      (Some (TokenExchangeInvokeResponse None ''Contoso''
                               (Some connectionMismatchDetail))))]\<rparr>)
   \<and> continueDialog coreNames contoso None 500
       (waiting tryAgain Map.empty
          (inbound plainAdapter Invoke (Some ''signin/tokenExchange'') None
             (Some [''connectionName'' \<mapsto> ''Contoso'', ''token'' \<mapsto> ''x''])))
     = (Inl (Error ''OAuthPrompt.recognizeToken(): not supported by the current adapter''),
        waiting tryAgain Map.empty
          ((inbound plainAdapter Invoke (Some ''signin/tokenExchange'') None
             (Some [''connectionName'' \<mapsto> ''Contoso'', ''token'' \<mapsto> ''x'']))
           \<lparr>responded := True,
            effects := [Sent (InvokeResponseOut 502
                         (Some (TokenExchangeInvokeResponse None ''Contoso''
                                  (Some notSupportedDetail))))]\<rparr>))"
proof -
  let ?c = "inbound workingAdapter Invoke (Some ''signin/tokenExchange'') None
        (Some [''connectionName'' \<mapsto> ''Wrong'', ''token'' \<mapsto> ''x''])"
  let ?p = "inbound plainAdapter Invoke (Some ''signin/tokenExchange'') None
        (Some [''connectionName'' \<mapsto> ''Contoso'', ''token'' \<mapsto> ''x''])"
  let ?st = "\<lparr>state = Map.empty, options = tryAgain, expires = 1000\<rparr>"
  have h1: "isTokenExchangeRequestInvoke coreNames ?c"
    and g1: "isTokenExchangeRequestInvoke coreNames ?p"
    by (simp_all add: isTokenExchangeRequestInvoke_def coreNames_def inbound_def)
  have h2: "\<not> isTeamsVerificationInvoke coreNames ?c"
    and g2: "\<not> isTeamsVerificationInvoke coreNames ?p"
    by (simp_all add: isTeamsVerificationInvoke_def coreNames_def inbound_def)
  have a: "recognizeToken coreNames contoso ?c
     = (Inr \<lparr>succeeded = False, recognized_value = None\<rparr>,
        ?c\<lparr>responded := True,
         effects := [Sent (InvokeResponseOut 400
                      (Some (TokenExchangeInvokeResponse None ''Contoso''
                               (Some connectionMismatchDetail))))]\<rparr>)"
    using token_exchange_checks [OF h1 h2, of contoso]
    by (simp add: inbound_def contoso_def)
  note t = token_exchange_checks [OF g1 g2, of contoso None 500 ?st]
  from t have r: "recognizeToken coreNames contoso ?p
     = (Inl (Error ''OAuthPrompt.recognizeToken(): not supported by the current adapter''),
        ?p\<lparr>responded := True,
            effects := [Sent (InvokeResponseOut 502
                         (Some (TokenExchangeInvokeResponse None ''Contoso''
                                  (Some notSupportedDetail))))]\<rparr>)"
    by (simp add: inbound_def contoso_def plainAdapter_def workingAdapter_def)
  from t r have "continueDialog coreNames contoso None 500 \<lparr>turnContext = ?p, activeDialogState = ?st\<rparr>
     = (Inl (Error ''OAuthPrompt.recognizeToken(): not supported by the current adapter''),
        \<lparr>turnContext = ?p\<lparr>responded := True,
            effects := [Sent (InvokeResponseOut 502
                         (Some (TokenExchangeInvokeResponse None ''Contoso''
                                  (Some notSupportedDetail))))]\<rparr>,
         activeDialogState = ?st\<rparr>)"
    by blast
  with h1 h2 a show ?thesis
    by (simp add: waiting_def)
qed

text \<open>
  The claim as stated fails: a token exchange invoke for the configured connection, on a
  turn where the provider's \<open>exchangeToken\<close> throws, gets no invoke response at all, and
  the exception of the provider leaves the prompt.
\<close>

theorem token_exchange_may_raise:
  "isTokenExchangeRequestInvoke coreNames
     (inbound brokenExchangeAdapter Invoke (Some ''signin/tokenExchange'') None
        (Some [''connectionName'' \<mapsto> ''Contoso'', ''token'' \<mapsto> ''x'']))
   \<and> \<not> isTeamsVerificationInvoke coreNames
     (inbound brokenExchangeAdapter Invoke (Some ''signin/tokenExchange'') None
        (Some [''connectionName'' \<mapsto> ''Contoso'', ''token'' \<mapsto> ''x'']))
   \<and> recognizeToken coreNames contoso
       (inbound brokenExchangeAdapter Invoke (Some ''signin/tokenExchange'') None
          (Some [''connectionName'' \<mapsto> ''Contoso'', ''token'' \<mapsto> ''x'']))
     = (Inl (Error ''exchange service unavailable''),
        (inbound brokenExchangeAdapter Invoke (Some ''signin/tokenExchange'') None
          (Some [''connectionName'' \<mapsto> ''Contoso'', ''token'' \<mapsto> ''x'']))
        \<lparr>effects := [ExchangeTokenCall ''user-1'' (Some ''x'')]\<rparr>)
   \<and> continueDialog coreNames contoso None 500
       (waiting tryAgain Map.empty
          (inbound brokenExchangeAdapter Invoke (Some ''signin/tokenExchange'') None
             (Some [''connectionName'' \<mapsto> ''Contoso'', ''token'' \<mapsto> ''x''])))
     = (Inl (Error ''exchange service unavailable''),
        waiting tryAgain Map.empty
          ((inbound brokenExchangeAdapter Invoke (Some ''signin/tokenExchange'') None
             (Some [''connectionName'' \<mapsto> ''Contoso'', ''token'' \<mapsto> ''x'']))
           \<lparr>effects := [ExchangeTokenCall ''user-1'' (Some ''x'')]\<rparr>))"
proof -
  let ?c = "inbound brokenExchangeAdapter Invoke (Some ''signin/tokenExchange'') None
        (Some [''connectionName'' \<mapsto> ''Contoso'', ''token'' \<mapsto> ''x''])"
  have h1: "isTokenExchangeRequestInvoke coreNames ?c"
    by (simp add: isTokenExchangeRequestInvoke_def coreNames_def inbound_def)
  have h2: "\<not> isTeamsVerificationInvoke coreNames ?c"
    by (simp add: isTeamsVerificationInvoke_def coreNames_def inbound_def)
  have h3: "\<not> isTokenResponseEvent coreNames ?c"
    by (simp add: isTokenResponseEvent_def inbound_def)
  have x: "recognizeTokenExchange contoso ?c
             = (Inl (Error ''exchange service unavailable''),
                ?c\<lparr>effects := [ExchangeTokenCall ''user-1'' (Some ''x'')]\<rparr>)"
    by (simp add: recognizeTokenExchange_def isTokenExchangeRequest_def contoso_def
        inbound_def brokenExchangeAdapter_def workingAdapter_def Let_def)
  have r: "recognizeToken coreNames contoso ?c
             = (Inl (Error ''exchange service unavailable''),
                ?c\<lparr>effects := [ExchangeTokenCall ''user-1'' (Some ''x'')]\<rparr>)"
    using h1 h2 h3 by (simp add: recognizeToken_def x)
  have "continueDialog coreNames contoso None 500 (waiting tryAgain Map.empty ?c)
     = (Inl (Error ''exchange service unavailable''),
        waiting tryAgain Map.empty
          (?c\<lparr>effects := [ExchangeTokenCall ''user-1'' (Some ''x'')]\<rparr>))"
    by (simp add: continueDialog_def waiting_def r)
  with h1 h2 r show ?thesis by simp
qed

text \<open>
  Claim C5. \<open>recognizeToken\<close> follows one recognition path, the first in the order token
  response event, Teams verification invoke, token exchange invoke, six digit text of a
  message, and the effects of the turn are those of that path alone. A token response
  event has no effect at all (no provider call, even when its text holds six digits); a
  verification invoke looks up only the code of its value and sends only replies without
  a body; a token exchange invoke calls only \<open>exchangeToken\<close> and sends only replies with
  a body; a message sends nothing and looks up at most the six digits of its text; any
  other activity has no effect and recognizes nothing.
\<close>

theorem recognition_paths_exclusive:
  "\<exists>es. effects (snd (recognizeToken k settings context)) = effects context @ es \<and>
     (if isTokenResponseEvent k context then
        es = [] \<and> fst (recognizeToken k settings context)
                  = Inr (recognizerResult (activity_value (activity context)))
      else if isTeamsVerificationInvoke k context then
        (\<forall>x \<in> set es.
           (\<exists>v. activity_value (activity context) = Some v \<and> x = GetUserTokenCall (v ''state''))
           \<or> (\<exists>status. x = Sent (InvokeResponseOut status None)))
      else if isTokenExchangeRequestInvoke k context then
        (\<forall>x \<in> set es.
           (\<exists>v. activity_value (activity context) = Some v
                \<and> x = ExchangeTokenCall (from_id (activity context)) (v ''token''))
           \<or> (\<exists>status body. x = Sent (InvokeResponseOut status (Some body))))
      else if activity_type (activity context) = Message then
        (es = [] \<or>
         (\<exists>code. execSixDigits (case activity_text (activity context) of
                                   None \<Rightarrow> ''undefined'' | Some t \<Rightarrow> t) = Some code
                 \<and> es = [GetUserTokenCall (Some code)]))
      else
        es = [] \<and> fst (recognizeToken k settings context)
                  = Inr \<lparr>succeeded = False, recognized_value = None\<rparr>)"
proof -
  consider (ev) "isTokenResponseEvent k context"
    | (teams) "\<not> isTokenResponseEvent k context" "isTeamsVerificationInvoke k context"
    | (exch) "\<not> isTokenResponseEvent k context" "\<not> isTeamsVerificationInvoke k context"
        "isTokenExchangeRequestInvoke k context"
    | (msg) "\<not> isTokenResponseEvent k context" "\<not> isTeamsVerificationInvoke k context"
        "\<not> isTokenExchangeRequestInvoke k context" "activity_type (activity context) = Message"
    | (none) "\<not> isTokenResponseEvent k context" "\<not> isTeamsVerificationInvoke k context"
        "\<not> isTokenExchangeRequestInvoke k context" "activity_type (activity context) \<noteq> Message"
    by blast
  then show ?thesis
  proof cases
    case ev
    then show ?thesis
      by (simp add: recognizeToken_def)
  next
    case teams
    then show ?thesis
      by (auto simp add: recognizeToken_def recognizeTeamsVerification_def getUserToken_def
          sendActivity_def split: option.split sum.split prod.split)
  next
    case exch
    then show ?thesis
      by (auto simp add: recognizeToken_def recognizeTokenExchange_def
          getTokenExchangeInvokeResponse_def
          sendActivity_def Let_def split: option.split sum.split prod.split)
  next
    case msg
    then show ?thesis
      by (auto simp add: recognizeToken_def recognizeMagicCode_def getUserToken_def
          split: option.split sum.split prod.split)
  next
    case none
    then show ?thesis
      by (simp add: recognizeToken_def recognizerResult_def)
  qed
qed


theorem recognition_paths_exclusive_witness:
  "isTokenResponseEvent coreNames
     (inbound workingAdapter Event (Some ''tokens/response'') (Some ''My code is 482913'')
        (Some contosoToken))
   \<and> execSixDigits ''My code is 482913'' = Some ''482913''
   \<and> effects (snd (recognizeToken coreNames contoso
        (inbound workingAdapter Event (Some ''tokens/response'') (Some ''My code is 482913'')
           (Some contosoToken)))) = []
   \<and> fst (recognizeToken coreNames contoso
        (inbound workingAdapter Event (Some ''tokens/response'') (Some ''My code is 482913'')
           (Some contosoToken)))
     = Inr \<lparr>succeeded = True, recognized_value = Some contosoToken\<rparr>
   \<and> effects (snd (recognizeToken coreNames contoso
        (inbound workingAdapter Invoke (Some ''signin/verifyState'') (Some ''My code is 482913'')
           (Some [''state'' \<mapsto> ''111111''])))) 
     = [GetUserTokenCall (Some ''111111''), Sent (InvokeResponseOut 404 None)]"
proof -
  let ?c = "inbound workingAdapter Event (Some ''tokens/response'') (Some ''My code is 482913'')
        (Some contosoToken)"
  let ?t = "inbound workingAdapter Invoke (Some ''signin/verifyState'') (Some ''My code is 482913'')
           (Some [''state'' \<mapsto> ''111111''])"
  have h: "isTokenResponseEvent coreNames ?c"
    by (simp add: isTokenResponseEvent_def coreNames_def inbound_def)
  have d: "execSixDigits ''My code is 482913'' = Some ''482913''"
    by (simp add: isDigit_def)
  have e: "effects ?c = []" and v: "activity_value (activity ?c) = Some contosoToken"
    by (simp_all add: inbound_def)
  from recognition_paths_exclusive [of coreNames contoso ?c] h
  have "effects (snd (recognizeToken coreNames contoso ?c)) = effects ?c
        \<and> fst (recognizeToken coreNames contoso ?c)
            = Inr (recognizerResult (activity_value (activity ?c)))"
    by auto
  moreover have "effects (snd (recognizeToken coreNames contoso ?t))
     = [GetUserTokenCall (Some ''111111''), Sent (InvokeResponseOut 404 None)]"
    by (simp add: recognizeToken_def isTokenResponseEvent_def isTeamsVerificationInvoke_def
        recognizeTeamsVerification_def getUserToken_def sendActivity_def coreNames_def
        inbound_def workingAdapter_def)
  ultimately show ?thesis
    using h d by (simp only: e v recognizerResult_def) simp
qed

subsection \<open>What recognition leaves unchanged\<close>

lemma finish_snd:
  "snd (case x of (Inl e, c1) \<Rightarrow> (Inl e, c1) | (Inr t, c1) \<Rightarrow> (Inr (f t), c1)) = snd x"
  by (cases x) (auto split: sum.split)

lemma teams_frame:
  "snd (recognizeTeamsVerification settings context)
     = context\<lparr>responded := responded (snd (recognizeTeamsVerification settings context)),
               effects := effects (snd (recognizeTeamsVerification settings context))\<rparr>"
  by (simp add: recognizeTeamsVerification_def getUserToken_def sendActivity_def
      split: option.split sum.split)

lemma exchange_frame:
  "snd (recognizeTokenExchange settings context)
     = context\<lparr>responded := responded (snd (recognizeTokenExchange settings context)),
               effects := effects (snd (recognizeTokenExchange settings context))\<rparr>"
  by (simp add: recognizeTokenExchange_def sendActivity_def Let_def
      split: option.split sum.split)

lemma magic_frame:
  "snd (recognizeMagicCode settings context)
     = context\<lparr>responded := responded (snd (recognizeMagicCode settings context)),
               effects := effects (snd (recognizeMagicCode settings context))\<rparr>"
  by (simp add: recognizeMagicCode_def getUserToken_def split: option.split)

lemma recognizeToken_frame:
  "snd (recognizeToken k settings context)
     = context\<lparr>responded := responded (snd (recognizeToken k settings context)),
               effects := effects (snd (recognizeToken k settings context))\<rparr>"
  unfolding recognizeToken_def finish_snd
  using teams_frame [of settings "context"] exchange_frame [of settings "context"]
    magic_frame [of settings "context"]
  by simp

lemma recognizeToken_activity:
  "activity (snd (recognizeToken k settings context)) = activity context"
  by (subst recognizeToken_frame) simp

lemma recognizeToken_message:
  assumes "activity_type (activity context) = Message"
  shows "recognizeToken k settings context =
     (case execSixDigits (case activity_text (activity context) of
                            None \<Rightarrow> ''undefined'' | Some t \<Rightarrow> t) of
        None \<Rightarrow> (Inr \<lparr>succeeded = False, recognized_value = None\<rparr>, context)
      | Some code \<Rightarrow>
          (case adapter_getUserToken (adapter context) of
             None \<Rightarrow>
               (Inl (Error ''OAuthPrompt.getUserToken(): not supported for the current adapter.''),
                context)
           | Some provider \<Rightarrow>
               (case provider (connectionName settings) (Some code)
                       (oAuthAppCredentials settings) of
                  Inl e \<Rightarrow>
                    (Inl e, context\<lparr>effects := effects context @ [GetUserTokenCall (Some code)]\<rparr>)
                | Inr token \<Rightarrow>
                    (Inr (recognizerResult token),
                     context\<lparr>effects := effects context @ [GetUserTokenCall (Some code)]\<rparr>))))"
  using assms
  by (simp add: recognizeToken_def isTokenResponseEvent_def isTeamsVerificationInvoke_def
      isTokenExchangeRequestInvoke_def recognizeMagicCode_def getUserToken_def
      recognizerResult_def split: option.split sum.split)

section \<open>A turn of the waiting prompt\<close>

lemma recognized_activity:
  "recognizeToken k settings c = (r, c1) \<Longrightarrow> activity c1 = activity c"
  using recognizeToken_activity [of k settings c] by simp

lemma continueDialog_timed_out:
  assumes "recognizeToken k settings (turnContext dc) = (Inr recognized', c1)"
      and "activity_type (activity (turnContext dc)) = Message"
      and "now > expires (activeDialogState dc)"
  shows "continueDialog k settings validator now dc
           = (Inr (EndDialog None), dc\<lparr>turnContext := c1\<rparr>)"
  using assms recognized_activity [OF assms(1)]
  by (simp add: continueDialog_def Let_def)



lemma continueDialog_message_timed_out:
  assumes m: "activity_type (activity (turnContext dc)) = Message"
      and t: "now > expires (activeDialogState dc)"
  shows "continueDialog k settings validator now dc =
       (case execSixDigits (case activity_text (activity (turnContext dc)) of
                              None \<Rightarrow> ''undefined'' | Some t \<Rightarrow> t) of
          None \<Rightarrow> (Inr (EndDialog None), dc)
        | Some code \<Rightarrow>
            (case adapter_getUserToken (adapter (turnContext dc)) of
               None \<Rightarrow>
                 (Inl (Error ''OAuthPrompt.getUserToken(): not supported for the current adapter.''),
                  dc)
             | Some provider \<Rightarrow>
                 (case provider (connectionName settings) (Some code)
                         (oAuthAppCredentials settings) of
                    Inl e \<Rightarrow>
                      (Inl e,
                       dc\<lparr>turnContext := (turnContext dc)
                          \<lparr>effects := effects (turnContext dc) @ [GetUserTokenCall (Some code)]\<rparr>\<rparr>)
                  | Inr token \<Rightarrow>
                      (Inr (EndDialog None),
                       dc\<lparr>turnContext := (turnContext dc)
                          \<lparr>effects := effects (turnContext dc) @ [GetUserTokenCall (Some code)]\<rparr>\<rparr>))))"
proof -
  obtain r c1 where rc: "recognizeToken k settings (turnContext dc) = (r, c1)"
    by (cases "recognizeToken k settings (turnContext dc)")
  have cd: "continueDialog k settings validator now dc =
      (case r of Inl e \<Rightarrow> (Inl e, dc\<lparr>turnContext := c1\<rparr>)
       | Inr x \<Rightarrow> (Inr (EndDialog None), dc\<lparr>turnContext := c1\<rparr>))"
  proof (cases r)
    case (Inl e)
    with rc show ?thesis by (simp add: continueDialog_raises)
  next
    case (Inr x)
    with rc show ?thesis using continueDialog_timed_out [OF _ m t] by simp
  qed
  note rm = recognizeToken_message [OF m, of k settings]
  show ?thesis
  proof (cases "execSixDigits (case activity_text (activity (turnContext dc)) of
                              None \<Rightarrow> ''undefined'' | Some t \<Rightarrow> t)")
    case None
    with rm rc have "r = Inr \<lparr>succeeded = False, recognized_value = None\<rparr>" "c1 = turnContext dc"
      by simp_all
    with cd None show ?thesis by simp
  next
    case (Some code)
    note code = Some
    show ?thesis
    proof (cases "adapter_getUserToken (adapter (turnContext dc))")
      case None
      with rm rc code have "r = Inl (Error ''OAuthPrompt.getUserToken(): not supported for the current adapter.'')"
          "c1 = turnContext dc"
        by simp_all
      with cd code None show ?thesis by simp
    next
      case (Some provider)
      show ?thesis
      proof (cases "provider (connectionName settings) (Some code) (oAuthAppCredentials settings)")
        case (Inl e)
        with rm rc code Some have "r = Inl e"
          "c1 = (turnContext dc)\<lparr>effects := effects (turnContext dc) @ [GetUserTokenCall (Some code)]\<rparr>"
          by simp_all
        with cd code Some Inl show ?thesis by simp
      next
        case (Inr token)
        with rm rc code Some have "r = Inr (recognizerResult token)"
          "c1 = (turnContext dc)\<lparr>effects := effects (turnContext dc) @ [GetUserTokenCall (Some code)]\<rparr>"
          by simp_all
        with cd code Some Inr show ?thesis by simp
      qed
    qed
  qed
qed





subsection \<open>Validation and the retry prompt\<close>

lemma sendActivity_effects:
  "effects (sendActivity a c) = effects c @ [Sent a]"
  by (simp add: sendActivity_def)

lemma foldl_send_effects:
  "effects (foldl (\<lambda>c a. sendActivity a c) c sends) = effects c @ map Sent sends"
  by (induction sends arbitrary: c) (simp_all add: sendActivity_def)

lemma continueDialog_in_time:
  assumes "recognizeToken k settings (turnContext dc) = (Inr recognized', c1)"
      and "\<not> (activity_type (activity (turnContext dc)) = Message
              \<and> now > expires (activeDialogState dc))"
  shows "continueDialog k settings validator now dc
           = validateRecognized validator (activity_type (activity (turnContext dc)) = Message)
               recognized' c1 (activeDialogState dc)"
  using assms recognized_activity [OF assms(1)]
  by (auto simp add: continueDialog_def Let_def)

lemma validateRecognized_without_validator:
  "validateRecognized None isMessage recognized' c1 state0 =
     (if succeeded recognized' then
        (Inr (EndDialog (recognized_value recognized')),
         \<lparr>turnContext = c1,
          activeDialogState = state0\<lparr>state := (state state0)(''attemptCount'' \<mapsto>
            (case state state0 ''attemptCount'' of None \<Rightarrow> 0 | Some i \<Rightarrow> i))\<rparr>\<rparr>)
      else
        (Inr EndOfTurn,
         \<lparr>turnContext =
            (case retryPrompt (options state0) of
               None \<Rightarrow> c1
             | Some p \<Rightarrow>
                 if \<not> responded c1 \<and> isMessage \<and> truthyPrompt (Some p)
                 then sendActivity (MessageOut p) c1 else c1),
          activeDialogState = state0\<lparr>state := (state state0)(''attemptCount'' \<mapsto>
            (case state state0 ''attemptCount'' of None \<Rightarrow> 0 | Some i \<Rightarrow> i))\<rparr>\<rparr>))"
proof (cases "state state0 ''attemptCount''")
  case None
  then show ?thesis by (simp add: validateRecognized_def)
next
  case (Some i)
  then have "(state state0)(''attemptCount'' \<mapsto> i) = state state0"
    by (simp add: fun_upd_idem)
  with Some show ?thesis by (simp add: validateRecognized_def)
qed

lemma ulp_small: "n < 9007199254740992 \<Longrightarrow> ulp n = 1"
  by (subst ulp.simps) simp

lemma ulp_limit: "ulp 9007199254740992 = 2"
  by (subst ulp.simps, subst ulp.simps) simp

lemma ulp_above: "ulp 9007199254740993 = 2"
  by (subst ulp.simps, subst ulp.simps) simp

lemma nearestDouble_exact:
  assumes "\<bar>x\<bar> \<le> 9007199254740992"
  shows "nearestDouble x = x"
proof (cases "\<bar>x\<bar> < 9007199254740992")
  case True
  then have "nat \<bar>x\<bar> < 9007199254740992" by simp
  then have u: "ulp (nat \<bar>x\<bar>) = 1" by (rule ulp_small)
  have "nearestDouble x = (if x < 0 then - int (nat \<bar>x\<bar>) else int (nat \<bar>x\<bar>))"
    unfolding nearestDouble_def Let_def u by simp
  also have "\<dots> = x" by simp
  finally show ?thesis .
next
  case False
  with assms have "\<bar>x\<bar> = 9007199254740992" by simp
  then have n: "nat \<bar>x\<bar> = 9007199254740992" by simp
  have "nearestDouble x = (if x < 0 then - int (nat \<bar>x\<bar>) else int (nat \<bar>x\<bar>))"
    unfolding nearestDouble_def Let_def n ulp_limit by simp
  also have "\<dots> = x" by simp
  finally show ?thesis .
qed

lemma preIncrement_exact:
  "- 9007199254740992 \<le> x \<Longrightarrow> x < 9007199254740992 \<Longrightarrow> preIncrement x = x + 1"
  unfolding preIncrement_def by (rule nearestDouble_exact) simp

lemma preIncrement_zero: "preIncrement 0 = 1"
  using preIncrement_exact [of 0] by simp

lemma preIncrement_limit: "preIncrement 9007199254740992 = 9007199254740992"
  by (simp add: preIncrement_def nearestDouble_def Let_def ulp_above)

lemma validateRecognized_with_validator:
  assumes "n = (case state state0 ''attemptCount'' of None \<Rightarrow> 0 | Some i \<Rightarrow> i)"
      and "v \<lparr>validator_context = c1, validator_recognized = recognized',
              validator_state = (state state0)(''attemptCount'' \<mapsto> preIncrement n),
              validator_options = options state0, attemptCount = preIncrement n\<rparr>
           = (verdict, sends, vstate, vrecognized, voptions)"
      and "c2 = foldl (\<lambda>c a. sendActivity a c)
                  (c1\<lparr>effects := effects c1
                       @ [ValidatorCall (preIncrement n) (succeeded recognized')]\<rparr>)
                  sends"
  shows "validateRecognized (Some v) isMessage recognized' c1 state0 =
     (case verdict of
        Inl e \<Rightarrow>
          (Inl e,
           \<lparr>turnContext = c2,
            activeDialogState = state0\<lparr>state := vstate, options := voptions\<rparr>\<rparr>)
      | Inr isValid \<Rightarrow>
          if isValid then
            (Inr (EndDialog (recognized_value vrecognized)),
             \<lparr>turnContext = c2,
              activeDialogState = state0\<lparr>state := vstate, options := voptions\<rparr>\<rparr>)
          else
            (Inr EndOfTurn,
             \<lparr>turnContext =
                (case retryPrompt voptions of
                   None \<Rightarrow> c2
                 | Some p \<Rightarrow>
                     if \<not> responded c2 \<and> isMessage \<and> truthyPrompt (Some p)
                     then sendActivity (MessageOut p) c2 else c2),
              activeDialogState = state0\<lparr>state := vstate, options := voptions\<rparr>\<rparr>))"
proof (cases "state state0 ''attemptCount''")
  case None
  with assms(1) have n: "n = 0" by simp
  have v0: "v \<lparr>validator_context = c1, validator_recognized = recognized',
              validator_state = (state state0)(''attemptCount'' \<mapsto> preIncrement 0),
              validator_options = options state0, attemptCount = preIncrement 0\<rparr>
           = (verdict, sends, vstate, vrecognized, voptions)"
    using assms(2) n by simp
  have c2eq: "foldl (\<lambda>c a. sendActivity a c)
                  (c1\<lparr>effects := effects c1
                       @ [ValidatorCall (preIncrement 0) (succeeded recognized')]\<rparr>)
                  sends = c2"
    using assms(3) n by simp
  show ?thesis
    by (simp add: validateRecognized_def Let_def None v0 c2eq split: sum.split)
next
  case (Some i)
  with assms(1) have n: "n = i" by simp
  have v0: "v \<lparr>validator_context = c1, validator_recognized = recognized',
              validator_state = (state state0)(''attemptCount'' \<mapsto> preIncrement i),
              validator_options = options state0, attemptCount = preIncrement i\<rparr>
           = (verdict, sends, vstate, vrecognized, voptions)"
    using assms(2) n by simp
  have c2eq: "foldl (\<lambda>c a. sendActivity a c)
                  (c1\<lparr>effects := effects c1
                       @ [ValidatorCall (preIncrement i) (succeeded recognized')]\<rparr>)
                  sends = c2"
    using assms(3) n by simp
  show ?thesis
    by (simp add: validateRecognized_def Let_def Some v0 c2eq split: sum.split)
qed

lemma validateRecognized_effects:
  "\<exists>es. effects (turnContext (snd (validateRecognized validator isMessage recognized' c1 state0)))
          = effects c1 @ es"
proof (cases validator)
  case None
  show ?thesis
    unfolding None validateRecognized_without_validator
    by (simp add: sendActivity_effects split: option.split)
next
  case (Some v)
  define n where "n = (case state state0 ''attemptCount'' of None \<Rightarrow> 0 | Some i \<Rightarrow> i)"
  obtain verdict sends vstate vrecognized voptions where
    v: "v \<lparr>validator_context = c1, validator_recognized = recognized',
              validator_state = (state state0)(''attemptCount'' \<mapsto> preIncrement n),
              validator_options = options state0, attemptCount = preIncrement n\<rparr>
           = (verdict, sends, vstate, vrecognized, voptions)"
    using prod_cases5 by blast
  show ?thesis
    unfolding Some validateRecognized_with_validator [where v = v, OF n_def v refl]
    by (simp add: sendActivity_effects foldl_send_effects split: option.split sum.split)
qed


text \<open>
  Claim C10. On every continue turn the effects of \<open>recognizeToken\<close> come first: the
  effects of the turn extend them. In particular a message that arrives after the
  deadline and holds six digits still has the provider look the code up; the prompt then
  completes with an absent token, and the token the provider returned is dropped.
\<close>

theorem recognition_precedes_timeout:
  "(\<exists>es. effects (turnContext (snd (continueDialog k settings validator now dc)))
            = effects (snd (recognizeToken k settings (turnContext dc))) @ es)
   \<and> (activity_type (activity (turnContext dc')) = Message
        \<and> now > expires (activeDialogState dc')
        \<and> execSixDigits (case activity_text (activity (turnContext dc')) of
                            None \<Rightarrow> ''undefined'' | Some t \<Rightarrow> t) = Some code
        \<and> adapter_getUserToken (adapter (turnContext dc')) = Some provider
        \<and> provider (connectionName settings) (Some code) (oAuthAppCredentials settings)
            = Inr token
      \<longrightarrow> continueDialog k settings validator now dc'
          = (Inr (EndDialog None),
             dc'\<lparr>turnContext := (turnContext dc')
                \<lparr>effects := effects (turnContext dc') @ [GetUserTokenCall (Some code)]\<rparr>\<rparr>))"
proof (intro conjI impI)
  obtain r c1 where rc: "recognizeToken k settings (turnContext dc) = (r, c1)"
    by (cases "recognizeToken k settings (turnContext dc)")
  show "\<exists>es. effects (turnContext (snd (continueDialog k settings validator now dc)))
            = effects (snd (recognizeToken k settings (turnContext dc))) @ es"
  proof (cases r)
    case (Inl e)
    with rc show ?thesis by (simp add: continueDialog_raises)
  next
    case (Inr x)
    show ?thesis
    proof (cases "activity_type (activity (turnContext dc)) = Message
                  \<and> now > expires (activeDialogState dc)")
      case True
      with rc Inr show ?thesis
        using continueDialog_timed_out [of k settings dc x c1 now validator] by simp
    next
      case False
      with rc Inr show ?thesis
        using continueDialog_in_time [of k settings dc x c1 now validator]
          validateRecognized_effects
        by simp
    qed
  qed
next
  assume a: "activity_type (activity (turnContext dc')) = Message
        \<and> now > expires (activeDialogState dc')
        \<and> execSixDigits (case activity_text (activity (turnContext dc')) of
                            None \<Rightarrow> ''undefined'' | Some t \<Rightarrow> t) = Some code
        \<and> adapter_getUserToken (adapter (turnContext dc')) = Some provider
        \<and> provider (connectionName settings) (Some code) (oAuthAppCredentials settings)
            = Inr token"
  then have m: "activity_type (activity (turnContext dc')) = Message"
    and t: "now > expires (activeDialogState dc')" by simp_all
  show "continueDialog k settings validator now dc'
          = (Inr (EndDialog None),
             dc'\<lparr>turnContext := (turnContext dc')
                \<lparr>effects := effects (turnContext dc') @ [GetUserTokenCall (Some code)]\<rparr>\<rparr>)"
    unfolding continueDialog_message_timed_out [OF m t]
    using a by simp
qed

theorem recognition_precedes_timeout_witness:
  "activity_type (activity (turnContext
      (waiting tryAgain Map.empty
         (inbound workingAdapter Message None (Some ''482913'') None)))) = Message
   \<and> 1500 > expires (activeDialogState
      (waiting tryAgain Map.empty
         (inbound workingAdapter Message None (Some ''482913'') None)))
   \<and> execSixDigits ''482913'' = Some ''482913''
   \<and> continueDialog coreNames contoso None 1500
       (waiting tryAgain Map.empty
          (inbound workingAdapter Message None (Some ''482913'') None))
     = (Inr (EndDialog None),
        waiting tryAgain Map.empty
          ((inbound workingAdapter Message None (Some ''482913'') None)
             \<lparr>effects := [GetUserTokenCall (Some ''482913'')]\<rparr>))"
proof -
  let ?m = "waiting tryAgain Map.empty
         (inbound workingAdapter Message None (Some ''482913'') None)"
  let ?p = "\<lambda>connection code credentials.
                if code = Some ''482913'' then Inr (Some contosoToken) else Inr None"
  have h1: "activity_type (activity (turnContext ?m)) = Message"
    and h2: "1500 > expires (activeDialogState ?m)"
    by (simp_all add: waiting_def inbound_def)
  have d: "execSixDigits ''482913'' = Some ''482913''"
    by (simp add: isDigit_def)
  have tx: "execSixDigits (case activity_text (activity (turnContext ?m)) of
                            None \<Rightarrow> ''undefined'' | Some t \<Rightarrow> t) = Some ''482913''"
    using d by (simp add: waiting_def inbound_def)
  have ad: "adapter_getUserToken (adapter (turnContext ?m)) = Some ?p"
    by (simp add: waiting_def inbound_def workingAdapter_def)
  have pr: "?p (connectionName contoso) (Some ''482913'') (oAuthAppCredentials contoso)
              = Inr (Some contosoToken)"
    by simp
  from recognition_precedes_timeout [of coreNames contoso None 1500 ?m ?m "''482913''" ?p
      "Some contosoToken"] h1 h2 tx ad pr
  have a: "continueDialog coreNames contoso None 1500 ?m
       = (Inr (EndDialog None),
          ?m\<lparr>turnContext := (turnContext ?m)
             \<lparr>effects := effects (turnContext ?m) @ [GetUserTokenCall (Some ''482913'')]\<rparr>\<rparr>)"
    by blast
  have c: "?m\<lparr>turnContext := (turnContext ?m)
             \<lparr>effects := effects (turnContext ?m) @ [GetUserTokenCall (Some ''482913'')]\<rparr>\<rparr>
        = waiting tryAgain Map.empty
          ((inbound workingAdapter Message None (Some ''482913'') None)
             \<lparr>effects := [GetUserTokenCall (Some ''482913'')]\<rparr>)"
    by (simp add: waiting_def inbound_def)
  show ?thesis
    using h1 h2 d a unfolding c by simp
qed

text \<open>
  Claim C2, as amended. With a validator configured, a continue turn on which recognition
  returns and which is not cut short by the timeout calls the validator once, with
  \<open>attemptCount\<close> the value of \<open>++\<close> on the stored count (0 when none is stored), both as
  its argument and in the state it is handed; the state of the prompt after the turn is
  the state the validator leaves. This holds whether the validator refuses, accepts or
  throws, so the count goes up on each call of the validator, not only on a failed
  validation. The count goes up by exactly 1 from a stored count of at least \<open>- 2 ^ 53\<close>
  and below \<open>2 ^ 53\<close>; a count of \<open>2 ^ 53\<close> stays as it is. On a turn cut short by the
  timeout the validator is not called and the state is unchanged. On a turn on which
  recognition throws, the exception leaves \<open>continueDialog\<close>: the validator is not called
  and the state is unchanged.
\<close>

theorem attemptCount_counts_validator_calls:
  assumes rec: "recognizeToken k settings (turnContext dc) = (Inr recognized', c1)"
      and n: "n = (case state (activeDialogState dc) ''attemptCount'' of
                     None \<Rightarrow> 0 | Some i \<Rightarrow> i)"
      and v: "v \<lparr>validator_context = c1, validator_recognized = recognized',
                 validator_state =
                   (state (activeDialogState dc))(''attemptCount'' \<mapsto> preIncrement n),
                 validator_options = options (activeDialogState dc),
                 attemptCount = preIncrement n\<rparr>
              = (verdict, sends, vstate, vrecognized, voptions)"
  shows "(if activity_type (activity (turnContext dc)) = Message
             \<and> now > expires (activeDialogState dc)
          then activeDialogState (snd (continueDialog k settings (Some v) now dc))
                 = activeDialogState dc
               \<and> effects (turnContext (snd (continueDialog k settings (Some v) now dc)))
                 = effects c1
          else state (activeDialogState (snd (continueDialog k settings (Some v) now dc)))
                 = vstate
               \<and> (\<exists>es. effects (turnContext (snd (continueDialog k settings (Some v) now dc)))
                          = effects c1 @ ValidatorCall (preIncrement n) (succeeded recognized')
                              # map Sent sends @ es
                        \<and> (\<forall>x \<in> set es. \<exists>p. x = Sent (MessageOut p))))
         \<and> (- 9007199254740992 \<le> n \<and> n < 9007199254740992 \<longrightarrow> preIncrement n = n + 1)
         \<and> preIncrement 9007199254740992 = 9007199254740992
         \<and> (\<forall>e c. recognizeToken k settings (turnContext dc') = (Inl e, c)
               \<longrightarrow> continueDialog k settings (Some v) now dc'
                   = (Inl e, dc'\<lparr>turnContext := c\<rparr>))"
proof -
  have turn: "if activity_type (activity (turnContext dc)) = Message
             \<and> now > expires (activeDialogState dc)
          then activeDialogState (snd (continueDialog k settings (Some v) now dc))
                 = activeDialogState dc
               \<and> effects (turnContext (snd (continueDialog k settings (Some v) now dc)))
                 = effects c1
          else state (activeDialogState (snd (continueDialog k settings (Some v) now dc)))
                 = vstate
               \<and> (\<exists>es. effects (turnContext (snd (continueDialog k settings (Some v) now dc)))
                          = effects c1 @ ValidatorCall (preIncrement n) (succeeded recognized')
                              # map Sent sends @ es
                        \<and> (\<forall>x \<in> set es. \<exists>p. x = Sent (MessageOut p)))"
  proof (cases "activity_type (activity (turnContext dc)) = Message
                \<and> now > expires (activeDialogState dc)")
    case True
    then show ?thesis
      using continueDialog_timed_out [OF rec, of now "Some v"] by simp
  next
    case False
    have "continueDialog k settings (Some v) now dc
            = validateRecognized (Some v) (activity_type (activity (turnContext dc)) = Message)
                recognized' c1 (activeDialogState dc)"
      using continueDialog_in_time [OF rec False] .
    then show ?thesis
      using False
      unfolding validateRecognized_with_validator [where v = v, OF n v refl]
      by (simp add: sendActivity_effects foldl_send_effects split: option.split sum.split)
  qed
  have step: "- 9007199254740992 \<le> n \<and> n < 9007199254740992 \<longrightarrow> preIncrement n = n + 1"
    by (simp add: preIncrement_exact)
  have raised: "\<forall>e c. recognizeToken k settings (turnContext dc') = (Inl e, c)
               \<longrightarrow> continueDialog k settings (Some v) now dc'
                   = (Inl e, dc'\<lparr>turnContext := c\<rparr>)"
    by (simp add: continueDialog_raises)
  show ?thesis
    by (rule conjI [OF turn conjI [OF step conjI [OF preIncrement_limit raised]]])
qed


lemma code_message_recognized:
  "recognizeToken coreNames contoso (inbound workingAdapter Message None (Some ''482913'') None)
     = (Inr \<lparr>succeeded = True, recognized_value = Some contosoToken\<rparr>,
        (inbound workingAdapter Message None (Some ''482913'') None)
          \<lparr>effects := [GetUserTokenCall (Some ''482913'')]\<rparr>)"
proof -
  let ?c = "inbound workingAdapter Message None (Some ''482913'') None"
  have m: "activity_type (activity ?c) = Message"
    by (simp add: inbound_def)
  have d: "execSixDigits ''482913'' = Some ''482913''"
    by (simp add: isDigit_def)
  show ?thesis
    unfolding recognizeToken_message [OF m]
    by (simp add: inbound_def workingAdapter_def isDigit_def recognizerResult_def)
qed

theorem attemptCount_counts_validator_calls_witness:
  "\<not> (activity_type (activity (turnContext
         (waiting tryAgain Map.empty
          (inbound workingAdapter Message None (Some ''482913'') None)))) = Message
       \<and> 500 > expires (activeDialogState
         (waiting tryAgain Map.empty
          (inbound workingAdapter Message None (Some ''482913'') None))))
   \<and> fst (continueDialog coreNames contoso (Some refusing) 500
       (waiting tryAgain Map.empty
          (inbound workingAdapter Message None (Some ''482913'') None))) = Inr EndOfTurn
   \<and> state (activeDialogState (snd (continueDialog coreNames contoso (Some refusing) 500
       (waiting tryAgain Map.empty
          (inbound workingAdapter Message None (Some ''482913'') None)))))
     = [''attemptCount'' \<mapsto> 1]
   \<and> state (activeDialogState (snd (continueDialog coreNames contoso (Some refusing) 1500
       (waiting tryAgain Map.empty
          (inbound workingAdapter Message None (Some ''482913'') None)))))
     = Map.empty
   \<and> state (activeDialogState (snd (continueDialog coreNames contoso (Some refusing) 500
       (waiting tryAgain [''attemptCount'' \<mapsto> 9007199254740992]
          (inbound workingAdapter Message None (Some ''482913'') None)))))
     = [''attemptCount'' \<mapsto> 9007199254740992]
   \<and> continueDialog coreNames contoso (Some refusing) 500
       (waiting tryAgain Map.empty
          (inbound failingAdapter Message None (Some ''482913'') None))
     = (Inl (Error ''token service unavailable''),
        waiting tryAgain Map.empty
          ((inbound failingAdapter Message None (Some ''482913'') None)
             \<lparr>effects := [GetUserTokenCall (Some ''482913'')]\<rparr>))"
proof -
  let ?c = "inbound workingAdapter Message None (Some ''482913'') None"
  let ?f = "inbound failingAdapter Message None (Some ''482913'') None"
  let ?dc = "waiting tryAgain Map.empty ?c"
  let ?dl = "waiting tryAgain [''attemptCount'' \<mapsto> 9007199254740992] ?c"
  let ?df = "waiting tryAgain Map.empty ?f"
  let ?r = "\<lparr>succeeded = True, recognized_value = Some contosoToken\<rparr>"
  let ?c1 = "?c\<lparr>effects := [GetUserTokenCall (Some ''482913'')]\<rparr>"
  have tc: "turnContext ?dc = ?c" and st: "state (activeDialogState ?dc) = Map.empty"
    and op: "options (activeDialogState ?dc) = tryAgain"
    by (simp_all add: waiting_def)
  have tl: "turnContext ?dl = ?c"
    and sl: "state (activeDialogState ?dl) = [''attemptCount'' \<mapsto> 9007199254740992]"
    by (simp_all add: waiting_def)
  have rec: "recognizeToken coreNames contoso (turnContext ?dc) = (Inr ?r, ?c1)"
    unfolding tc by (rule code_message_recognized)
  have recl: "recognizeToken coreNames contoso (turnContext ?dl) = (Inr ?r, ?c1)"
    unfolding tl by (rule code_message_recognized)
  have mf: "activity_type (activity ?f) = Message"
    by (simp add: inbound_def)
  have recf: "recognizeToken coreNames contoso (turnContext ?df)
                = (Inl (Error ''token service unavailable''),
                   ?f\<lparr>effects := [GetUserTokenCall (Some ''482913'')]\<rparr>)"
    unfolding waiting_def DialogContext.simps recognizeToken_message [OF mf]
    by (simp add: inbound_def failingAdapter_def workingAdapter_def isDigit_def)
  have n: "(0::int) = (case state (activeDialogState ?dc) ''attemptCount'' of
                     None \<Rightarrow> 0 | Some i \<Rightarrow> i)"
    by (simp add: st)
  have nl: "(9007199254740992::int) = (case state (activeDialogState ?dl) ''attemptCount'' of
                     None \<Rightarrow> 0 | Some i \<Rightarrow> i)"
    by (simp add: sl)
  have v: "refusing \<lparr>validator_context = ?c1, validator_recognized = ?r,
                 validator_state =
                   (state (activeDialogState ?dc))(''attemptCount'' \<mapsto> preIncrement 0),
                 validator_options = options (activeDialogState ?dc),
                 attemptCount = preIncrement 0\<rparr>
              = (Inr False, [], [''attemptCount'' \<mapsto> 1], ?r, options (activeDialogState ?dc))"
    by (simp add: refusing_def st preIncrement_zero)
  have vl: "refusing \<lparr>validator_context = ?c1, validator_recognized = ?r,
                 validator_state =
                   (state (activeDialogState ?dl))(''attemptCount'' \<mapsto>
                      preIncrement 9007199254740992),
                 validator_options = options (activeDialogState ?dl),
                 attemptCount = preIncrement 9007199254740992\<rparr>
              = (Inr False, [], [''attemptCount'' \<mapsto> 9007199254740992], ?r,
                 options (activeDialogState ?dl))"
    by (simp add: refusing_def sl preIncrement_limit)
  have h: "\<not> (activity_type (activity (turnContext ?dc)) = Message
       \<and> 500 > expires (activeDialogState ?dc))"
    by (simp add: waiting_def)
  have hl: "\<not> (activity_type (activity (turnContext ?dl)) = Message
       \<and> 500 > expires (activeDialogState ?dl))"
    by (simp add: waiting_def)
  have f: "fst (continueDialog coreNames contoso (Some refusing) 500 ?dc) = Inr EndOfTurn"
    unfolding continueDialog_in_time [OF rec h]
      validateRecognized_with_validator [where v = refusing, OF n v refl]
    by simp
  have late: "activity_type (activity (turnContext ?dc)) = Message
       \<and> 1500 > expires (activeDialogState ?dc)"
    by (simp add: waiting_def inbound_def)
  from late
    attemptCount_counts_validator_calls [where v = refusing and now = 1500 and dc' = ?df,
      OF rec n v]
  have u: "state (activeDialogState (snd (continueDialog coreNames contoso (Some refusing) 1500
             ?dc))) = Map.empty"
    by (simp add: st)
  from hl
    attemptCount_counts_validator_calls [where v = refusing and now = 500 and dc' = ?df,
      OF recl nl vl]
  have l: "state (activeDialogState (snd (continueDialog coreNames contoso (Some refusing) 500
             ?dl))) = [''attemptCount'' \<mapsto> 9007199254740992]"
    by simp
  note t = attemptCount_counts_validator_calls [where v = refusing and now = 500
      and dc' = ?df, OF rec n v]
  from t h have i: "state (activeDialogState (snd (continueDialog coreNames contoso
             (Some refusing) 500 ?dc))) = [''attemptCount'' \<mapsto> 1]"
    by simp
  from t recf have "continueDialog coreNames contoso (Some refusing) 500 ?df
     = (Inl (Error ''token service unavailable''),
        ?df\<lparr>turnContext := ?f\<lparr>effects := [GetUserTokenCall (Some ''482913'')]\<rparr>\<rparr>)"
    by blast
  then have r: "continueDialog coreNames contoso (Some refusing) 500 ?df
     = (Inl (Error ''token service unavailable''),
        waiting tryAgain Map.empty (?f\<lparr>effects := [GetUserTokenCall (Some ''482913'')]\<rparr>))"
    by (simp add: waiting_def)
  show ?thesis
    using h f i u l r by simp
qed

text \<open>
  The claim as stated fails. The count also goes up on a validation that succeeds: the
  first answer of the user is accepted, and the stored count has gone from absent to 1.
  And a failed validation does not always add 1: from a stored count of \<open>2 ^ 53\<close> the
  validator is handed \<open>2 ^ 53\<close> again, and the stored count stays.
\<close>

theorem attemptCount_not_per_failed_validation:
  "state (activeDialogState
      (waiting tryAgain Map.empty
          (inbound workingAdapter Message None (Some ''482913'') None))) ''attemptCount'' = None
   \<and> fst (continueDialog coreNames contoso (Some accepting) 500
       (waiting tryAgain Map.empty
          (inbound workingAdapter Message None (Some ''482913'') None)))
     = Inr (EndDialog (Some contosoToken))
   \<and> state (activeDialogState (snd (continueDialog coreNames contoso (Some accepting) 500
       (waiting tryAgain Map.empty
          (inbound workingAdapter Message None (Some ''482913'') None))))) ''attemptCount''
     = Some 1
   \<and> continueDialog coreNames contoso (Some refusing) 500
       (waiting tryAgain [''attemptCount'' \<mapsto> 9007199254740992]
          (inbound workingAdapter Message None (Some ''482913'') None))
     = (Inr EndOfTurn,
        waiting tryAgain [''attemptCount'' \<mapsto> 9007199254740992]
          ((inbound workingAdapter Message None (Some ''482913'') None)
             \<lparr>responded := True,
              effects := [GetUserTokenCall (Some ''482913''),
                          ValidatorCall 9007199254740992 True,
                          Sent (MessageOut (PromptText ''Please sign in.''))]\<rparr>))"
proof -
  let ?c = "inbound workingAdapter Message None (Some ''482913'') None"
  let ?dc = "waiting tryAgain Map.empty ?c"
  let ?dl = "waiting tryAgain [''attemptCount'' \<mapsto> 9007199254740992] ?c"
  let ?r = "\<lparr>succeeded = True, recognized_value = Some contosoToken\<rparr>"
  let ?c1 = "?c\<lparr>effects := [GetUserTokenCall (Some ''482913'')]\<rparr>"
  have tc: "turnContext ?dc = ?c" and st: "state (activeDialogState ?dc) = Map.empty"
    by (simp_all add: waiting_def)
  have tl: "turnContext ?dl = ?c"
    and sl: "state (activeDialogState ?dl) = [''attemptCount'' \<mapsto> 9007199254740992]"
    by (simp_all add: waiting_def)
  have rec: "recognizeToken coreNames contoso (turnContext ?dc) = (Inr ?r, ?c1)"
    unfolding tc by (rule code_message_recognized)
  have recl: "recognizeToken coreNames contoso (turnContext ?dl) = (Inr ?r, ?c1)"
    unfolding tl by (rule code_message_recognized)
  have n: "(0::int) = (case state (activeDialogState ?dc) ''attemptCount'' of
                     None \<Rightarrow> 0 | Some i \<Rightarrow> i)"
    by (simp add: st)
  have nl: "(9007199254740992::int) = (case state (activeDialogState ?dl) ''attemptCount'' of
                     None \<Rightarrow> 0 | Some i \<Rightarrow> i)"
    by (simp add: sl)
  have v: "accepting \<lparr>validator_context = ?c1, validator_recognized = ?r,
                 validator_state =
                   (state (activeDialogState ?dc))(''attemptCount'' \<mapsto> preIncrement 0),
                 validator_options = options (activeDialogState ?dc),
                 attemptCount = preIncrement 0\<rparr>
              = (Inr True, [], [''attemptCount'' \<mapsto> 1], ?r, options (activeDialogState ?dc))"
    by (simp add: accepting_def st preIncrement_zero)
  have vl: "refusing \<lparr>validator_context = ?c1, validator_recognized = ?r,
                 validator_state =
                   (state (activeDialogState ?dl))(''attemptCount'' \<mapsto>
                      preIncrement 9007199254740992),
                 validator_options = options (activeDialogState ?dl),
                 attemptCount = preIncrement 9007199254740992\<rparr>
              = (Inr False, [], [''attemptCount'' \<mapsto> 9007199254740992], ?r,
                 options (activeDialogState ?dl))"
    by (simp add: refusing_def sl preIncrement_limit)
  have h: "\<not> (activity_type (activity (turnContext ?dc)) = Message
       \<and> 500 > expires (activeDialogState ?dc))"
    by (simp add: waiting_def)
  have hl: "\<not> (activity_type (activity (turnContext ?dl)) = Message
       \<and> 500 > expires (activeDialogState ?dl))"
    by (simp add: waiting_def)
  have a: "continueDialog coreNames contoso (Some accepting) 500 ?dc
          = (Inr (EndDialog (Some contosoToken)),
             \<lparr>turnContext =
                ?c1\<lparr>effects := effects ?c1 @ [ValidatorCall (preIncrement 0) True]\<rparr>,
              activeDialogState =
                (activeDialogState ?dc)\<lparr>state := [''attemptCount'' \<mapsto> 1],
                                          options := options (activeDialogState ?dc)\<rparr>\<rparr>)"
    unfolding continueDialog_in_time [OF rec h]
      validateRecognized_with_validator [where v = accepting, OF n v refl]
    by simp
  have b: "continueDialog coreNames contoso (Some refusing) 500 ?dl
     = (Inr EndOfTurn,
        waiting tryAgain [''attemptCount'' \<mapsto> 9007199254740992]
          (?c\<lparr>responded := True,
              effects := [GetUserTokenCall (Some ''482913''),
                          ValidatorCall 9007199254740992 True,
                          Sent (MessageOut (PromptText ''Please sign in.''))]\<rparr>))"
    unfolding continueDialog_in_time [OF recl hl]
      validateRecognized_with_validator [where v = refusing, OF nl vl refl]
    by (simp add: waiting_def inbound_def tryAgain_def truthyPrompt_def sendActivity_def
        preIncrement_limit)
  from a b show ?thesis
    by (simp add: st)
qed

lemma message_recognition_is_silent:
  assumes "activity_type (activity context) = Message"
  shows "responded (snd (recognizeToken k settings context)) = responded context"
  unfolding recognizeToken_message [OF assms]
  by (simp split: option.split sum.split)

text \<open>
  Claim C7. On a continue turn that has not timed out and on which validation does not
  accept (no validator and nothing recognized, or a validator that refuses), the prompt
  returns the end of the turn, and it sends the retry prompt exactly when the turn has
  not yet produced output (\<open>responded\<close>, after recognition and after what the validator
  sent), the inbound activity is a message, and the stored options hold a retry prompt (a
  text that is not empty, or an activity); the stored options are read after the
  validator has run, as it leaves them. The state of the prompt stays, with the attempt
  count: initialised to 0 or kept without a validator, as the validator left it
  otherwise. Recognition itself produces no output on a message.
\<close>

theorem retry_prompt_conditions:
  assumes rec: "recognizeToken k settings (turnContext dc) = (Inr recognized', c1)"
      and intime: "\<not> (activity_type (activity (turnContext dc)) = Message
                       \<and> now > expires (activeDialogState dc))"
      and n: "n = (case state (activeDialogState dc) ''attemptCount'' of
                     None \<Rightarrow> 0 | Some i \<Rightarrow> i)"
      and refused:
        "(case validator of
            None \<Rightarrow>
              (Inr (succeeded recognized'), c1,
               (state (activeDialogState dc))(''attemptCount'' \<mapsto> n),
               options (activeDialogState dc))
          | Some v \<Rightarrow>
              (case v \<lparr>validator_context = c1, validator_recognized = recognized',
                       validator_state =
                         (state (activeDialogState dc))(''attemptCount'' \<mapsto> preIncrement n),
                       validator_options = options (activeDialogState dc),
                       attemptCount = preIncrement n\<rparr> of
                 (verdict, sends, vstate, vrecognized, voptions) \<Rightarrow>
                   (verdict,
                    foldl (\<lambda>c a. sendActivity a c)
                      (c1\<lparr>effects := effects c1
                           @ [ValidatorCall (preIncrement n) (succeeded recognized')]\<rparr>) sends,
                    vstate, voptions)))
         = (Inr False, c2, state2, options2)"
  shows "continueDialog k settings validator now dc =
           (Inr EndOfTurn,
            \<lparr>turnContext =
               (case retryPrompt options2 of
                  None \<Rightarrow> c2
                | Some p \<Rightarrow>
                    if \<not> responded c2 \<and> activity_type (activity (turnContext dc)) = Message
                       \<and> truthyPrompt (Some p)
                    then c2\<lparr>responded := True, effects := effects c2 @ [Sent (MessageOut p)]\<rparr>
                    else c2),
             activeDialogState =
               (activeDialogState dc)\<lparr>state := state2, options := options2\<rparr>\<rparr>)
         \<and> (activity_type (activity (turnContext dc)) = Message
              \<longrightarrow> responded c1 = responded (turnContext dc))"
proof (intro conjI impI)
  assume "activity_type (activity (turnContext dc)) = Message"
  from message_recognition_is_silent [OF this, of k settings] rec
  show "responded c1 = responded (turnContext dc)" by simp
next
  show "continueDialog k settings validator now dc =
           (Inr EndOfTurn,
            \<lparr>turnContext =
               (case retryPrompt options2 of
                  None \<Rightarrow> c2
                | Some p \<Rightarrow>
                    if \<not> responded c2 \<and> activity_type (activity (turnContext dc)) = Message
                       \<and> truthyPrompt (Some p)
                    then c2\<lparr>responded := True, effects := effects c2 @ [Sent (MessageOut p)]\<rparr>
                    else c2),
             activeDialogState =
               (activeDialogState dc)\<lparr>state := state2, options := options2\<rparr>\<rparr>)"
  proof (cases validator)
    case None
    with refused n have "\<not> succeeded recognized'" "c2 = c1"
      "state2 = (state (activeDialogState dc))(''attemptCount'' \<mapsto>
         (case state (activeDialogState dc) ''attemptCount'' of None \<Rightarrow> 0 | Some i \<Rightarrow> i))"
      "options2 = options (activeDialogState dc)"
      by simp_all
    then show ?thesis
      unfolding None continueDialog_in_time [OF rec intime, of None]
        validateRecognized_without_validator
      by (simp add: sendActivity_def split: option.split)
  next
    case (Some v)
    obtain verdict sends vstate vrecognized voptions where
      v: "v \<lparr>validator_context = c1, validator_recognized = recognized',
                validator_state =
                  (state (activeDialogState dc))(''attemptCount'' \<mapsto> preIncrement n),
                validator_options = options (activeDialogState dc),
                attemptCount = preIncrement n\<rparr>
             = (verdict, sends, vstate, vrecognized, voptions)"
      using prod_cases5 by blast
    with refused Some have "verdict = Inr False" "vstate = state2" "voptions = options2"
      "foldl (\<lambda>c a. sendActivity a c)
         (c1\<lparr>effects := effects c1
              @ [ValidatorCall (preIncrement n) (succeeded recognized')]\<rparr>) sends
       = c2"
      by simp_all
    then show ?thesis
      unfolding Some continueDialog_in_time [OF rec intime, of "Some v"]
        validateRecognized_with_validator [where v = v, OF n v refl]
      by (simp add: sendActivity_def split: option.split)
  qed
qed


theorem retry_prompt_conditions_witness:
  "\<not> (activity_type (activity (turnContext
         (waiting tryAgain Map.empty
            (inbound workingAdapter Message None (Some ''hello'') None)))) = Message
       \<and> 500 > expires (activeDialogState
         (waiting tryAgain Map.empty
            (inbound workingAdapter Message None (Some ''hello'') None))))
   \<and> continueDialog coreNames contoso None 500
       (waiting tryAgain Map.empty
          (inbound workingAdapter Message None (Some ''hello'') None))
     = (Inr EndOfTurn,
        waiting tryAgain [''attemptCount'' \<mapsto> 0]
          ((inbound workingAdapter Message None (Some ''hello'') None)
             \<lparr>responded := True,
              effects := [Sent (MessageOut (PromptText ''Please sign in.''))]\<rparr>))"
proof -
  let ?c = "inbound workingAdapter Message None (Some ''hello'') None"
  let ?dc = "waiting tryAgain Map.empty ?c"
  let ?r = "\<lparr>succeeded = False, recognized_value = None\<rparr>"
  have m: "activity_type (activity ?c) = Message"
    by (simp add: inbound_def)
  have tc: "turnContext ?dc = ?c" and st: "state (activeDialogState ?dc) = Map.empty"
    by (simp_all add: waiting_def)
  have rec: "recognizeToken coreNames contoso (turnContext ?dc) = (Inr ?r, ?c)"
    unfolding tc recognizeToken_message [OF m]
    by (simp add: inbound_def isDigit_def)
  have h: "\<not> (activity_type (activity (turnContext ?dc)) = Message
       \<and> 500 > expires (activeDialogState ?dc))"
    by (simp add: waiting_def)
  have n: "(0::int) = (case state (activeDialogState ?dc) ''attemptCount'' of
                     None \<Rightarrow> 0 | Some i \<Rightarrow> i)"
    by (simp add: st)
  have refused: "(case None of
            None \<Rightarrow>
              (Inr (succeeded ?r), ?c,
               (state (activeDialogState ?dc))(''attemptCount'' \<mapsto> 0),
               options (activeDialogState ?dc))
          | Some v \<Rightarrow>
              (case v \<lparr>validator_context = ?c, validator_recognized = ?r,
                       validator_state =
                         (state (activeDialogState ?dc))(''attemptCount'' \<mapsto> preIncrement 0),
                       validator_options = options (activeDialogState ?dc),
                       attemptCount = preIncrement 0\<rparr> of
                 (verdict, sends, vstate, vrecognized, voptions) \<Rightarrow>
                   (verdict,
                    foldl (\<lambda>c a. sendActivity a c)
                      (?c\<lparr>effects := effects ?c
                           @ [ValidatorCall (preIncrement 0) (succeeded ?r)]\<rparr>) sends,
                    vstate, voptions)))
         = (Inr False, ?c, [''attemptCount'' \<mapsto> 0], tryAgain)"
    by (simp add: st waiting_def)
  show ?thesis
    using h retry_prompt_conditions [where validator = None and now = 500, OF rec h n refused]
    by (simp add: waiting_def inbound_def tryAgain_def truthyPrompt_def)
qed

section \<open>The first turn of the prompt\<close>

lemma getSignInResource_effects:
  "getSignInResource settings context = (r, c1)
   \<Longrightarrow> \<exists>es. c1 = context\<lparr>effects := effects context @ es\<rparr>
            \<and> (\<forall>x \<in> set es. \<exists>u. x = GetSignInResourceCall u)"
  by (auto simp add: getSignInResource_def split: option.splits
      intro: exI [of _ "[]"] exI [of _ "[GetSignInResourceCall (from_id (activity context))]"])

lemma addLoginCard_effects:
  assumes "addLoginCard isSkillClaim settings cards0 context = (r, c1)"
  shows "\<exists>es. c1 = context\<lparr>effects := effects context @ es\<rparr>
            \<and> (\<forall>x \<in> set es. \<exists>u. x = GetSignInResourceCall u)"
proof -
  obtain r' c' where g: "getSignInResource settings context = (r', c')"
    by (cases "getSignInResource settings context")
  from getSignInResource_effects [OF g] obtain es where
    es: "c' = context\<lparr>effects := effects context @ es\<rparr>"
      "\<forall>x \<in> set es. \<exists>u. x = GetSignInResourceCall u" by blast
  have "c1 = c' \<or> c1 = context"
    using assms g
    by (auto simp add: addLoginCard_def Let_def split: if_splits sum.splits)
  then show ?thesis
  proof
    assume "c1 = c'"
    with es show ?thesis by blast
  next
    assume "c1 = context"
    then have "c1 = context\<lparr>effects := effects context @ []\<rparr>" by simp
    then show ?thesis by (intro exI [of _ "[]"]) simp
  qed
qed

lemma filter_nonempty_member:
  "length (filter P xs) \<noteq> 0 \<Longrightarrow> \<exists>a \<in> set xs. P a"
  by (induction xs) (auto split: if_splits)

lemma addLoginCard_has_card:
  assumes "addLoginCard isSkillClaim settings cards0 context = (Inr cards, c1)"
  shows "\<exists>a \<in> set cards. isOAuthCard a \<or> isSigninCard a"
proof -
  obtain r' c' where g: "getSignInResource settings context = (r', c')"
    by (cases "getSignInResource settings context")
  consider (o1) "isOAuthCardSupported context" "length (filter isOAuthCard cards0) = 0"
    | (o2) "isOAuthCardSupported context" "length (filter isOAuthCard cards0) \<noteq> 0"
    | (s1) "\<not> isOAuthCardSupported context" "length (filter isSigninCard cards0) = 0"
    | (s2) "\<not> isOAuthCardSupported context" "length (filter isSigninCard cards0) \<noteq> 0"
    by blast
  then show ?thesis
  proof cases
    case o1
    with assms g show ?thesis
      by (cases r') (auto simp add: addLoginCard_def Let_def isOAuthCard_def)
  next
    case o2
    with assms have "cards = cards0" by (simp add: addLoginCard_def)
    with filter_nonempty_member [OF o2(2)] show ?thesis by blast
  next
    case s1
    with assms g show ?thesis
      by (cases r') (auto simp add: addLoginCard_def Let_def isSigninCard_def)
  next
    case s2
    with assms have "cards = cards0" by (simp add: addLoginCard_def)
    with filter_nonempty_member [OF s2(2)] show ?thesis by blast
  qed
qed


lemma sendOAuthCardAsync_sends:
  assumes "sendOAuthCardAsync isSkillClaim settings p context = (r, c2)"
  shows "case r of
           Inl e \<Rightarrow>
             (\<exists>es. effects c2 = effects context @ es
                   \<and> (\<forall>x \<in> set es. \<exists>u. x = GetSignInResourceCall u))
         | Inr u \<Rightarrow>
             (\<exists>msg cards es.
                 effects c2 = effects context @ es @ [Sent (MessageOut (PromptActivity msg))]
                 \<and> attachments msg = Some cards
                 \<and> (\<exists>a \<in> set cards. isOAuthCard a \<or> isSigninCard a)
                 \<and> (\<forall>x \<in> set es. \<exists>u. x = GetSignInResourceCall u))"
proof (cases "adapter_getUserToken (adapter context) = None")
  case True
  with assms have "r = Inl (Error ''OAuthPrompt.sendOAuthCardAsync(): not supported for the current adapter.'')"
    "c2 = context"
    by (simp_all add: sendOAuthCardAsync_def)
  then show ?thesis by (simp add: exI [of _ "[]"])
next
  case False
  define msg where "msg =
               (case p of
                  Some (PromptActivity a) \<Rightarrow> a
                | Some (PromptText t) \<Rightarrow>
                    \<lparr>message_text = Some t, inputHint = Some AcceptingInput, attachments = None\<rparr>
                | None \<Rightarrow>
                    \<lparr>message_text = None, inputHint = Some AcceptingInput, attachments = None\<rparr>)"
  define cards0 where "cards0 = (case attachments msg of None \<Rightarrow> [] | Some as \<Rightarrow> as)"
  obtain ra c1 where a: "addLoginCard isSkillClaim settings cards0 context = (ra, c1)"
    by (cases "addLoginCard isSkillClaim settings cards0 context")
  from addLoginCard_effects [OF a] obtain es where
    es: "c1 = context\<lparr>effects := effects context @ es\<rparr>"
      "\<forall>x \<in> set es. \<exists>u. x = GetSignInResourceCall u" by blast
  show ?thesis
  proof (cases ra)
    case (Inl e)
    with assms False a have "r = Inl e" "c2 = c1"
      by (simp_all add: sendOAuthCardAsync_def Let_def msg_def [symmetric] cards0_def [symmetric])
    with es show ?thesis by auto
  next
    case (Inr cards)
    with assms False a have r: "\<exists>u. r = Inr u"
      and c2: "effects c2 = effects c1
                 @ [Sent (MessageOut (PromptActivity (msg\<lparr>attachments := Some cards\<rparr>)))]"
      by (auto simp add: sendOAuthCardAsync_def Let_def msg_def [symmetric] cards0_def [symmetric]
          sendActivity_def split: if_splits)
    from a Inr addLoginCard_has_card have "\<exists>a \<in> set cards. isOAuthCard a \<or> isSigninCard a"
      by blast
    with r c2 es show ?thesis
      by (auto intro!: exI [of _ "msg\<lparr>attachments := Some cards\<rparr>"] exI [of _ es])
  qed
qed


text \<open>
  Claim C8. When the silent lookup of \<open>beginDialog\<close> (\<open>getUserToken\<close> without a code)
  returns a token, the prompt completes in that turn with this token and the lookup is
  the only effect: nothing is sent. When \<open>beginDialog\<close> returns the end of the turn, the
  lookup had returned no token, and the turn sent one message, last, whose attachments
  hold a login card (an OAuth card or a sign-in card). Whatever the prompt sent in the
  turn, it sent after a lookup without a token, and it then returned the end of the turn.
  After a lookup without a token the prompt waits, unless building the card throws.
\<close>

theorem silent_sign_in:
  "(\<forall>token. fst (getUserToken settings None (turnContext dc)) = Inr (Some token)
      \<longrightarrow> fst (beginDialog isSkillClaim settings options' now dc)
            = Inr (EndDialog (Some token))
          \<and> turnContext (snd (beginDialog isSkillClaim settings options' now dc))
            = (turnContext dc)\<lparr>effects := effects (turnContext dc) @ [GetUserTokenCall None]\<rparr>)
   \<and> (fst (beginDialog isSkillClaim settings options' now dc') = Inr EndOfTurn
      \<longrightarrow> fst (getUserToken settings None (turnContext dc')) = Inr None
          \<and> (\<exists>msg cards es.
                effects (turnContext (snd (beginDialog isSkillClaim settings options' now dc')))
                  = effects (turnContext dc') @ GetUserTokenCall None # es
                      @ [Sent (MessageOut (PromptActivity msg))]
                \<and> attachments msg = Some cards
                \<and> (\<exists>a \<in> set cards. isOAuthCard a \<or> isSigninCard a)
                \<and> (\<forall>x \<in> set es. \<exists>u. x = GetSignInResourceCall u)))
   \<and> (\<forall>x. Sent x \<in> set (effects (turnContext
                  (snd (beginDialog isSkillClaim settings options' now dc'))))
          \<and> Sent x \<notin> set (effects (turnContext dc'))
      \<longrightarrow> fst (getUserToken settings None (turnContext dc')) = Inr None
          \<and> fst (beginDialog isSkillClaim settings options' now dc') = Inr EndOfTurn)
   \<and> (fst (getUserToken settings None (turnContext dc')) = Inr None
      \<longrightarrow> fst (beginDialog isSkillClaim settings options' now dc') = Inr EndOfTurn
          \<or> (\<exists>e. fst (beginDialog isSkillClaim settings options' now dc') = Inl e))"
proof -
  define o2 where "o2 =
    (case options' of None \<Rightarrow> \<lparr>prompt = None, retryPrompt = None\<rparr> | Some x \<Rightarrow> x)
      \<lparr>prompt := ensureInputHint (prompt
          (case options' of None \<Rightarrow> \<lparr>prompt = None, retryPrompt = None\<rparr> | Some x \<Rightarrow> x)),
       retryPrompt := ensureInputHint (retryPrompt
          (case options' of None \<Rightarrow> \<lparr>prompt = None, retryPrompt = None\<rparr> | Some x \<Rightarrow> x))\<rparr>"
  have first: "fst (beginDialog isSkillClaim settings options' now dc)
            = Inr (EndDialog (Some token))
          \<and> turnContext (snd (beginDialog isSkillClaim settings options' now dc))
            = (turnContext dc)\<lparr>effects := effects (turnContext dc) @ [GetUserTokenCall None]\<rparr>"
    if "fst (getUserToken settings None (turnContext dc)) = Inr (Some token)" for token
    using that
    by (auto simp add: beginDialog_def Let_def getUserToken_def split: option.splits prod.splits)
  obtain g c1 where g: "getUserToken settings None (turnContext dc') = (g, c1)"
    by (cases "getUserToken settings None (turnContext dc')")
  obtain r c2 where s: "sendOAuthCardAsync isSkillClaim settings (prompt o2) c1 = (r, c2)"
    by (cases "sendOAuthCardAsync isSkillClaim settings (prompt o2) c1")
  have c1: "g = Inr None \<Longrightarrow> effects c1 = effects (turnContext dc') @ [GetUserTokenCall None]"
    using g by (auto simp add: getUserToken_def split: option.splits)
  have c1': "Sent x \<in> set (effects c1) \<Longrightarrow> Sent x \<in> set (effects (turnContext dc'))" for x
    using g by (auto simp add: getUserToken_def split: option.splits)
  have b: "beginDialog isSkillClaim settings options' now dc' =
      (case g of
         Inl e \<Rightarrow> (Inl e, \<lparr>turnContext = c1, activeDialogState =
              \<lparr>state = Map.empty, options = o2,
               expires = now + (case timeout settings of Some t \<Rightarrow> t | None \<Rightarrow> 900000)\<rparr>\<rparr>)
       | Inr None \<Rightarrow>
           (case r of Inl e \<Rightarrow> Inl e | Inr u \<Rightarrow> Inr EndOfTurn,
            \<lparr>turnContext = c2, activeDialogState =
              \<lparr>state = Map.empty,
               options = (case r of Inl e \<Rightarrow> o2 | Inr u \<Rightarrow> o2\<lparr>prompt := u\<rparr>),
               expires = now + (case timeout settings of Some t \<Rightarrow> t | None \<Rightarrow> 900000)\<rparr>\<rparr>)
       | Inr (Some token) \<Rightarrow>
           (Inr (EndDialog (Some token)), \<lparr>turnContext = c1, activeDialogState =
              \<lparr>state = Map.empty, options = o2,
               expires = now + (case timeout settings of Some t \<Rightarrow> t | None \<Rightarrow> 900000)\<rparr>\<rparr>))"
    using g s
    by (simp add: beginDialog_def Let_def o2_def [symmetric] split: sum.split option.split)
  note snd = sendOAuthCardAsync_sends [OF s]
  have second: "fst (getUserToken settings None (turnContext dc')) = Inr None
          \<and> (\<exists>msg cards es.
                effects (turnContext (snd (beginDialog isSkillClaim settings options' now dc')))
                  = effects (turnContext dc') @ GetUserTokenCall None # es
                      @ [Sent (MessageOut (PromptActivity msg))]
                \<and> attachments msg = Some cards
                \<and> (\<exists>a \<in> set cards. isOAuthCard a \<or> isSigninCard a)
                \<and> (\<forall>x \<in> set es. \<exists>u. x = GetSignInResourceCall u))"
    if w: "fst (beginDialog isSkillClaim settings options' now dc') = Inr EndOfTurn"
  proof -
    from w b have gn: "g = Inr None" and ru: "\<exists>u. r = Inr u"
      by (auto split: sum.splits option.splits)
    with snd c1 b g show ?thesis by auto
  qed
  have third: "fst (getUserToken settings None (turnContext dc')) = Inr None
          \<and> fst (beginDialog isSkillClaim settings options' now dc') = Inr EndOfTurn"
    if w: "Sent x \<in> set (effects (turnContext
                  (snd (beginDialog isSkillClaim settings options' now dc'))))
          \<and> Sent x \<notin> set (effects (turnContext dc'))" for x
  proof -
    from w c1' have nc: "Sent x \<notin> set (effects c1)" by blast
    from w b nc have gn: "g = Inr None"
      by (auto split: sum.splits option.splits)
    with w b c1 snd have "\<exists>u. r = Inr u"
      by (cases r) auto
    with gn b g show ?thesis by auto
  qed
  have fourth: "fst (beginDialog isSkillClaim settings options' now dc') = Inr EndOfTurn
          \<or> (\<exists>e. fst (beginDialog isSkillClaim settings options' now dc') = Inl e)"
    if "fst (getUserToken settings None (turnContext dc')) = Inr None"
    using that b g by (cases r) auto
  from first second third fourth show ?thesis by blast
qed


theorem silent_sign_in_witness:
  "fst (getUserToken contoso None
          (turnContext (pushed (inbound signedInAdapter Message None (Some ''hi'') None))))
     = Inr (Some contosoToken)
   \<and> fst (beginDialog (\<lambda>claims. False) contoso (Some tryAgain) 0
            (pushed (inbound signedInAdapter Message None (Some ''hi'') None)))
     = Inr (EndDialog (Some contosoToken))
   \<and> effects (turnContext (snd (beginDialog (\<lambda>claims. False) contoso (Some tryAgain) 0
            (pushed (inbound signedInAdapter Message None (Some ''hi'') None)))))
     = [GetUserTokenCall None]
   \<and> fst (beginDialog (\<lambda>claims. False) contoso (Some tryAgain) 0
            (pushed (inbound workingAdapter Message None (Some ''hi'') None)))
     = Inr EndOfTurn
   \<and> fst (getUserToken contoso None
          (turnContext (pushed (inbound workingAdapter Message None (Some ''hi'') None))))
     = Inr None
   \<and> effects (turnContext (snd (beginDialog (\<lambda>claims. False) contoso (Some tryAgain) 0
            (pushed (inbound workingAdapter Message None (Some ''hi'') None)))))
     = [GetUserTokenCall None, GetSignInResourceCall ''user-1'',
        Sent (MessageOut (PromptActivity
          \<lparr>message_text = None, inputHint = Some AcceptingInput,
           attachments = Some [OAuthCardAttachment ''Contoso'' ''Sign in'' None None None
                                 Signin]\<rparr>))]"
proof -
  let ?s = "pushed (inbound signedInAdapter Message None (Some ''hi'') None)"
  let ?w = "pushed (inbound workingAdapter Message None (Some ''hi'') None)"
  have h1: "fst (getUserToken contoso None (turnContext ?s)) = Inr (Some contosoToken)"
    by (simp add: getUserToken_def pushed_def inbound_def signedInAdapter_def workingAdapter_def)
  have low: "toLowerCase ''https://channel.example'' = ''https://channel.example''"
    by (simp add: toLowerCase_def)
  have sup: "isOAuthCardSupported (inbound workingAdapter Message None (Some ''hi'') None
               \<lparr>effects := [GetUserTokenCall None]\<rparr>)"
    by (simp add: isOAuthCardSupported_def inbound_def workingAdapter_def
        channelSupportsOAuthCard_def)
  have b: "beginDialog (\<lambda>claims. False) contoso (Some tryAgain) 0 ?w
      = (Inr EndOfTurn,
         \<lparr>turnContext = (inbound workingAdapter Message None (Some ''hi'') None)
            \<lparr>loginTimeout := Some 1000, responded := True,
             effects := [GetUserTokenCall None, GetSignInResourceCall ''user-1'',
                Sent (MessageOut (PromptActivity
                  \<lparr>message_text = None, inputHint = Some AcceptingInput,
                   attachments = Some [OAuthCardAttachment ''Contoso'' ''Sign in'' None None None
                                 Signin]\<rparr>))]\<rparr>,
          activeDialogState = \<lparr>state = Map.empty, options = tryAgain, expires = 1000\<rparr>\<rparr>)"
    using sup
    by (simp add: beginDialog_def Let_def getUserToken_def sendOAuthCardAsync_def
        addLoginCard_def getSignInResource_def isFromStreamingConnection_def low
        sendActivity_def ensureInputHint_def tryAgain_def contoso_def contosoResource_def
        pushed_def inbound_def workingAdapter_def)
  then have h2: "fst (beginDialog (\<lambda>claims. False) contoso (Some tryAgain) 0 ?w) = Inr EndOfTurn"
    by simp
  from silent_sign_in [of contoso ?s "\<lambda>claims. False" "Some tryAgain" 0 ?w] h1 h2
  have "fst (beginDialog (\<lambda>claims. False) contoso (Some tryAgain) 0 ?s)
            = Inr (EndDialog (Some contosoToken))
          \<and> turnContext (snd (beginDialog (\<lambda>claims. False) contoso (Some tryAgain) 0 ?s))
            = (turnContext ?s)\<lparr>effects := effects (turnContext ?s) @ [GetUserTokenCall None]\<rparr>"
    and "fst (getUserToken contoso None (turnContext ?w)) = Inr None"
    by blast+
  then show ?thesis
    using h1 h2 b by (simp add: pushed_def inbound_def)
qed

section \<open>The turn driver\<close>

lemma refreshLastAccess_result:
  "refreshLastAccess e t0 t1 stored =
     (\<lparr>lastAccess = Some (case lastAccess stored of None \<Rightarrow> t0 | Some a \<Rightarrow> a),
       dialogs = (if (case e of None \<Rightarrow> False
                      | Some x \<Rightarrow> t1 - (case lastAccess stored of None \<Rightarrow> t0 | Some a \<Rightarrow> a) \<ge> x)
                  then None else dialogs stored)\<rparr>,
      (case e of None \<Rightarrow> False
       | Some x \<Rightarrow> t1 - (case lastAccess stored of None \<Rightarrow> t0 | Some a \<Rightarrow> a) \<ge> x))"
  by (simp add: refreshLastAccess_def Let_def)

lemma continueOrBegin_effects:
  "continueOrBegin ops root (s, es) = (r, s1, es1)
   \<Longrightarrow> \<exists>xs. es1 = es @ xs \<and> set xs \<subseteq> {ContinueDialog, BeginDialog root}"
  by (auto simp add: continueOrBegin_def split: if_splits prod.splits sum.splits)

lemma runDialogs_step:
  assumes "continueOrBegin ops root w = (Inl err, s1, es1)"
      and "dc_emitEvent ops ''error'' err True True s1 = (Inr handled, s2)"
  shows "runDialogs ops root w =
           (if handled then runDialogs ops root (s2, es1 @ [EmitEvent ''error'' err True True])
            else Some (Inl err, s2, es1 @ [EmitEvent ''error'' err True True]))"
  by (subst runDialogs.simps) (simp add: assms)

lemma runDialogs_returns:
  assumes "continueOrBegin ops root w = (Inr r, s1, es1)"
  shows "runDialogs ops root w = Some (Inr r, s1, es1)"
  by (subst runDialogs.simps) (simp add: assms)

lemma runDialogs_effects:
  assumes "runDialogs ops root w = Some y"
  shows "\<exists>xs. snd (snd y) = snd w @ xs
          \<and> (\<forall>x \<in> set xs. x = ContinueDialog \<or> x = BeginDialog root
                \<or> (\<exists>e. x = EmitEvent ''error'' e True True))"
  using assms
proof (induction ops root w y rule: runDialogs.raw_induct)
  case (1 runDialogs' ops root w y)
  obtain s es where w: "w = (s, es)" by (cases w)
  obtain r s1 es1 where c: "continueOrBegin ops root (s, es) = (r, s1, es1)"
    using prod_cases3 by blast
  from continueOrBegin_effects [OF c] obtain xs where
    xs: "es1 = es @ xs" "set xs \<subseteq> {ContinueDialog, BeginDialog root}" by blast
  show ?case
  proof (cases r)
    case (Inr tr)
    with 1(2) w c have "y = (Inr tr, s1, es1)" by simp
    with xs w show ?thesis by auto
  next
    case (Inl err)
    obtain h s2 where e: "dc_emitEvent ops ''error'' err True True s1 = (h, s2)"
      by (cases "dc_emitEvent ops ''error'' err True True s1")
    show ?thesis
    proof (cases h)
      case (Inl err2)
      with 1(2) w c e \<open>r = Inl err\<close>
      have "y = (Inl err2, s2, es1 @ [EmitEvent ''error'' err True True])" by simp
      with xs w show ?thesis by auto
    next
      case (Inr handled)
      show ?thesis
      proof (cases handled)
        case False
        with 1(2) w c e \<open>r = Inl err\<close> Inr
        have "y = (Inl err, s2, es1 @ [EmitEvent ''error'' err True True])" by simp
        with xs w show ?thesis by auto
      next
        case True
        with 1(2) w c e \<open>r = Inl err\<close> Inr
        have f: "runDialogs' ops root (s2, es1 @ [EmitEvent ''error'' err True True]) = Some y"
          by simp
        have g: "runDialogs ops root (s2, es1 @ [EmitEvent ''error'' err True True]) = Some y"
          using 1(3) runDialogs_step [of ops root w err s1 es1 handled s2] w c e
            \<open>r = Inl err\<close> Inr True
          by simp
        from 1(1) [OF f g] obtain ys where
          ys: "snd (snd y) = (es1 @ [EmitEvent ''error'' err True True]) @ ys"
            "\<forall>x \<in> set ys. x = ContinueDialog \<or> x = BeginDialog root
                \<or> (\<exists>e. x = EmitEvent ''error'' e True True)"
          by auto
        with xs w show ?thesis
          by (intro exI [of _ "xs @ EmitEvent ''error'' err True True # ys"]) auto
      qed
    qed
  qed
qed (rule assms)


lemma onTurn_configured:
  assumes "rootDialogId m = Some root" and "root \<noteq> []"
      and "conversationState m = Some stored"
      and "refreshLastAccess (expireAfter m) t0 t1 stored = (cached, expired)"
      and "loadAllScopes ops (case dialogs cached of
                                None \<Rightarrow> emptyDialogState ops | Some d \<Rightarrow> d) = Inr s0"
  shows "onTurn ops t0 t1 m =
     (case runDialogs ops root
             (s0, (if expired then [ClearConversation] else []) @ [LoadAllScopes]) of
        None \<Rightarrow> None
      | Some (Inl e, s', es') \<Rightarrow> Some (Inl e, m, es')
      | Some (Inr tr, s', es') \<Rightarrow>
          Some (Inr \<lparr>turnResult = tr\<rparr>,
                m\<lparr>conversationState := Some (cached\<lparr>dialogs := Some s'\<rparr>)\<rparr>,
                es' @ [SaveAllChanges, SendTrace]))"
proof -
  have "onTurn ops t0 t1 m =
      (case refreshLastAccess (expireAfter m) t0 t1 stored of
         (cached, expired) \<Rightarrow>
           (let es0 = (if expired then [ClearConversation] else []) @ [LoadAllScopes]
            in case loadAllScopes ops
                      (case dialogs cached of
                         None \<Rightarrow> emptyDialogState ops | Some d \<Rightarrow> d) of
                 Inl e \<Rightarrow> Some (Inl e, m, es0)
               | Inr s0 \<Rightarrow>
                   (case runDialogs ops root (s0, es0) of
                      None \<Rightarrow> None
                    | Some (Inl err, s, es) \<Rightarrow> Some (Inl err, m, es)
                    | Some (Inr turnResult', s, es) \<Rightarrow>
                        Some (Inr \<lparr>turnResult = turnResult'\<rparr>,
                              m\<lparr>conversationState :=
                                  Some (cached\<lparr>dialogs := Some s\<rparr>)\<rparr>,
                              es @ [SaveAllChanges, SendTrace]))))"
    unfolding onTurn_def using assms(1-3) by simp
  also have "\<dots> = (case runDialogs ops root
             (s0, (if expired then [ClearConversation] else []) @ [LoadAllScopes]) of
        None \<Rightarrow> None
      | Some (Inl e, s', es') \<Rightarrow> Some (Inl e, m, es')
      | Some (Inr tr, s', es') \<Rightarrow>
          Some (Inr \<lparr>turnResult = tr\<rparr>,
                m\<lparr>conversationState := Some (cached\<lparr>dialogs := Some s'\<rparr>)\<rparr>,
                es' @ [SaveAllChanges, SendTrace]))"
    unfolding assms(4) prod.case Let_def assms(5) sum.case ..
  finally show ?thesis .
qed

text \<open>
  Claim C4, as amended. Whenever an exception escapes the continue-or-begin step of the
  driver, in the first round of the loop or a later one, the driver emits the event
  \<open>error\<close> with the exception, asking for bubbling from the leaf. When no dialog handles
  the event the loop ends with that same exception; when a dialog handles it the driver
  runs the continue-or-begin step again, from the state the handlers left. The turn ends
  as its loop ends: with an exception the manager is returned as it was and neither
  \<open>saveAllChanges\<close> nor the trace takes place; with a result the state is saved and the
  trace sent. So a handled error completes the turn normally only once a later round
  returns, and it does when the next round returns.
\<close>

theorem error_event_and_retry:
  assumes "rootDialogId m = Some root" and "root \<noteq> []"
      and "conversationState m = Some stored"
      and "refreshLastAccess (expireAfter m) t0 t1 stored = (cached, expired)"
      and "loadAllScopes ops (case dialogs cached of
                                None \<Rightarrow> emptyDialogState ops | Some d \<Rightarrow> d) = Inr s0"
      and "continueOrBegin ops root (s, es) = (Inl err, s1, es1)"
      and "dc_emitEvent ops ''error'' err True True s1 = (Inr handled, s2)"
  shows "runDialogs ops root (s, es) =
           (if handled then runDialogs ops root (s2, es1 @ [EmitEvent ''error'' err True True])
            else Some (Inl err, s2, es1 @ [EmitEvent ''error'' err True True]))
       \<and> onTurn ops t0 t1 m =
           (case runDialogs ops root
                   (s0, (if expired then [ClearConversation] else []) @ [LoadAllScopes]) of
              None \<Rightarrow> None
            | Some (Inl e, s', es') \<Rightarrow> Some (Inl e, m, es')
            | Some (Inr tr, s', es') \<Rightarrow>
                Some (Inr \<lparr>turnResult = tr\<rparr>,
                      m\<lparr>conversationState := Some (cached\<lparr>dialogs := Some s'\<rparr>)\<rparr>,
                      es' @ [SaveAllChanges, SendTrace]))
       \<and> (\<forall>r s' es'.
             runDialogs ops root
               (s0, (if expired then [ClearConversation] else []) @ [LoadAllScopes])
               = Some (r, s', es')
             \<longrightarrow> SaveAllChanges \<notin> set es' \<and> SendTrace \<notin> set es')
       \<and> (\<forall>r s' es'.
             handled
             \<and> continueOrBegin ops root (s2, es1 @ [EmitEvent ''error'' err True True])
                 = (Inr r, s', es')
             \<longrightarrow> runDialogs ops root (s, es) = Some (Inr r, s', es'))"
proof -
  have a: "runDialogs ops root (s, es) =
           (if handled then runDialogs ops root (s2, es1 @ [EmitEvent ''error'' err True True])
            else Some (Inl err, s2, es1 @ [EmitEvent ''error'' err True True]))"
    using assms(6,7) by (rule runDialogs_step)
  have b: "onTurn ops t0 t1 m =
           (case runDialogs ops root
                   (s0, (if expired then [ClearConversation] else []) @ [LoadAllScopes]) of
              None \<Rightarrow> None
            | Some (Inl e, s', es') \<Rightarrow> Some (Inl e, m, es')
            | Some (Inr tr, s', es') \<Rightarrow>
                Some (Inr \<lparr>turnResult = tr\<rparr>,
                      m\<lparr>conversationState := Some (cached\<lparr>dialogs := Some s'\<rparr>)\<rparr>,
                      es' @ [SaveAllChanges, SendTrace]))"
    using assms(1-5) by (rule onTurn_configured)
  have c: "\<forall>r s' es'.
             runDialogs ops root
               (s0, (if expired then [ClearConversation] else []) @ [LoadAllScopes])
               = Some (r, s', es')
             \<longrightarrow> SaveAllChanges \<notin> set es' \<and> SendTrace \<notin> set es'"
  proof (intro allI impI)
    fix r s' es'
    assume "runDialogs ops root
               (s0, (if expired then [ClearConversation] else []) @ [LoadAllScopes])
               = Some (r, s', es')"
    from runDialogs_effects [OF this] obtain xs where
      xs: "es' = ((if expired then [ClearConversation] else []) @ [LoadAllScopes]) @ xs"
        "\<forall>x \<in> set xs. x = ContinueDialog \<or> x = BeginDialog root
                  \<or> (\<exists>e. x = EmitEvent ''error'' e True True)"
      by auto
    from xs(2) have "SaveAllChanges \<notin> set xs \<and> SendTrace \<notin> set xs"
      by blast
    then show "SaveAllChanges \<notin> set es' \<and> SendTrace \<notin> set es'"
      unfolding xs(1) by simp
  qed
  have d: "\<forall>r s' es'.
             handled
             \<and> continueOrBegin ops root (s2, es1 @ [EmitEvent ''error'' err True True])
                 = (Inr r, s', es')
             \<longrightarrow> runDialogs ops root (s, es) = Some (Inr r, s', es')"
    using a runDialogs_returns by auto
  show ?thesis
    by (rule conjI [OF a conjI [OF b conjI [OF c d]]])
qed

theorem error_event_and_retry_witness:
  "continueOrBegin recoveringOps ''root'' (1, [LoadAllScopes])
     = (Inl (Error ''first''), 2, [LoadAllScopes, ContinueDialog])
   \<and> dc_emitEvent recoveringOps ''error'' (Error ''first'') True True 2 = (Inr True, 2)
   \<and> onTurn recoveringOps 500 500 manager
     = Some (Inr \<lparr>turnResult = waitingResult\<rparr>,
             manager\<lparr>conversationState := Some \<lparr>lastAccess = Some 0, dialogs = Some 3\<rparr>\<rparr>,
             [LoadAllScopes, ContinueDialog, EmitEvent ''error'' (Error ''first'') True True,
              ContinueDialog, SaveAllChanges, SendTrace])"
proof -
  have a1: "continueOrBegin recoveringOps ''root'' (1, [LoadAllScopes])
              = (Inl (Error ''first''), 2, [LoadAllScopes, ContinueDialog])"
    by (simp add: continueOrBegin_def recoveringOps_def waitingOps_def)
  have e1: "dc_emitEvent recoveringOps ''error'' (Error ''first'') True True 2 = (Inr True, 2)"
    by (simp add: recoveringOps_def waitingOps_def)
  have a2: "continueOrBegin recoveringOps ''root''
              (2, [LoadAllScopes, ContinueDialog] @ [EmitEvent ''error'' (Error ''first'') True True])
              = (Inr waitingResult, 3,
                 [LoadAllScopes, ContinueDialog, EmitEvent ''error'' (Error ''first'') True True,
                  ContinueDialog])"
    by (simp add: continueOrBegin_def recoveringOps_def waitingOps_def waitingResult_def)
  have c: "rootDialogId manager = Some ''root''" "''root'' \<noteq> []"
    "conversationState manager = Some \<lparr>lastAccess = Some 0, dialogs = Some 1\<rparr>"
    by (simp_all add: manager_def)
  have f: "refreshLastAccess (expireAfter manager) 500 500 \<lparr>lastAccess = Some 0, dialogs = Some (1::nat)\<rparr>
             = (\<lparr>lastAccess = Some 0, dialogs = Some 1\<rparr>, False)"
    by (simp add: refreshLastAccess_def manager_def)
  have l: "loadAllScopes recoveringOps
             (case dialogs \<lparr>lastAccess = Some 0, dialogs = Some (1::nat)\<rparr> of
                None \<Rightarrow> emptyDialogState recoveringOps | Some d \<Rightarrow> d) = Inr 1"
    by (simp add: recoveringOps_def waitingOps_def)
  have es0: "(if False then [ClearConversation] else []) @ [LoadAllScopes] = [LoadAllScopes]"
    by simp
  note t = error_event_and_retry [OF c f l a1 e1, unfolded es0]
  from t have r: "runDialogs recoveringOps ''root'' (1, [LoadAllScopes])
             = Some (Inr waitingResult, 3,
                 [LoadAllScopes, ContinueDialog, EmitEvent ''error'' (Error ''first'') True True,
                  ContinueDialog])"
    using runDialogs_returns [OF a2] by simp
  from t have "onTurn recoveringOps 500 500 manager
     = Some (Inr \<lparr>turnResult = waitingResult\<rparr>,
             manager\<lparr>conversationState := Some \<lparr>lastAccess = Some 0, dialogs = Some 3\<rparr>\<rparr>,
             [LoadAllScopes, ContinueDialog, EmitEvent ''error'' (Error ''first'') True True,
              ContinueDialog, SaveAllChanges, SendTrace])"
    unfolding r by simp
  with a1 e1 show ?thesis by simp
qed

text \<open>
  The claim as stated fails: the first error of the turn is handled by a dialog, and the
  turn still ends with an exception (the one of the second round, which no dialog
  handles) and nothing saved.
\<close>

theorem handled_error_then_fatal:
  "dc_emitEvent faultyOps ''error'' (Error ''first'') True True 2 = (Inr True, 2)
   \<and> onTurn faultyOps 500 500 manager
     = Some (Inl (Error ''second''), manager,
             [LoadAllScopes, ContinueDialog, EmitEvent ''error'' (Error ''first'') True True,
              ContinueDialog, EmitEvent ''error'' (Error ''second'') True True])"
proof -
  have a1: "continueOrBegin faultyOps ''root'' (1, [LoadAllScopes])
              = (Inl (Error ''first''), 2, [LoadAllScopes, ContinueDialog])"
    by (simp add: continueOrBegin_def faultyOps_def waitingOps_def)
  have e1: "dc_emitEvent faultyOps ''error'' (Error ''first'') True True 2 = (Inr True, 2)"
    by (simp add: faultyOps_def waitingOps_def)
  have a2: "continueOrBegin faultyOps ''root''
              (2, [LoadAllScopes, ContinueDialog] @ [EmitEvent ''error'' (Error ''first'') True True])
              = (Inl (Error ''second''), 3,
                 [LoadAllScopes, ContinueDialog, EmitEvent ''error'' (Error ''first'') True True,
                  ContinueDialog])"
    by (simp add: continueOrBegin_def faultyOps_def waitingOps_def)
  have e2: "dc_emitEvent faultyOps ''error'' (Error ''second'') True True 3 = (Inr False, 3)"
    by (simp add: faultyOps_def waitingOps_def)
  have r: "runDialogs faultyOps ''root'' (1, [LoadAllScopes])
             = Some (Inl (Error ''second''), 3,
                 [LoadAllScopes, ContinueDialog, EmitEvent ''error'' (Error ''first'') True True,
                  ContinueDialog, EmitEvent ''error'' (Error ''second'') True True])"
    unfolding runDialogs_step [OF a1 e1] using runDialogs_step [OF a2 e2] by simp
  have c: "rootDialogId manager = Some ''root''" "''root'' \<noteq> []"
    "conversationState manager = Some \<lparr>lastAccess = Some 0, dialogs = Some 1\<rparr>"
    by (simp_all add: manager_def)
  have f: "refreshLastAccess (expireAfter manager) 500 500 \<lparr>lastAccess = Some 0, dialogs = Some (1::nat)\<rparr>
             = (\<lparr>lastAccess = Some 0, dialogs = Some 1\<rparr>, False)"
    by (simp add: refreshLastAccess_def manager_def)
  have l: "loadAllScopes faultyOps
             (case dialogs \<lparr>lastAccess = Some 0, dialogs = Some (1::nat)\<rparr> of
                None \<Rightarrow> emptyDialogState faultyOps | Some d \<Rightarrow> d) = Inr 1"
    by (simp add: faultyOps_def waitingOps_def)
  have "onTurn faultyOps 500 500 manager
     = Some (Inl (Error ''second''), manager,
             [LoadAllScopes, ContinueDialog, EmitEvent ''error'' (Error ''first'') True True,
              ContinueDialog, EmitEvent ''error'' (Error ''second'') True True])"
    unfolding onTurn_configured [OF c f l] using r by simp
  with e1 show ?thesis by simp
qed

subsection \<open>The time of the last access\<close>

lemma onTurn_manager:
  assumes "onTurn ops t0 t1 m = Some (r, m1, es)"
  shows "rootDialogId m1 = rootDialogId m \<and> expireAfter m1 = expireAfter m
       \<and> (\<forall>stored. conversationState m = Some stored
            \<longrightarrow> (\<exists>stored1. conversationState m1 = Some stored1
                  \<and> (\<forall>a. lastAccess stored = Some a \<longrightarrow> lastAccess stored1 = Some a)
                  \<and> (m1 \<noteq> m \<longrightarrow> lastAccess stored1
                        = Some (case lastAccess stored of None \<Rightarrow> t0 | Some a \<Rightarrow> a))))"
proof (cases "\<exists>root stored. rootDialogId m = Some root \<and> root \<noteq> []
                 \<and> conversationState m = Some stored")
  case False
  with assms have "m1 = m"
    by (auto simp add: onTurn_def split: option.splits if_splits)
  then show ?thesis by simp
next
  case True
  then obtain root stored where c: "rootDialogId m = Some root" "root \<noteq> []"
    "conversationState m = Some stored" by blast
  obtain cached expired where f: "refreshLastAccess (expireAfter m) t0 t1 stored = (cached, expired)"
    by (cases "refreshLastAccess (expireAfter m) t0 t1 stored")
  from f have la: "lastAccess cached = Some (case lastAccess stored of None \<Rightarrow> t0 | Some a \<Rightarrow> a)"
    unfolding refreshLastAccess_result by auto
  show ?thesis
  proof (cases "loadAllScopes ops (case dialogs cached of
                                None \<Rightarrow> emptyDialogState ops | Some d \<Rightarrow> d)")
    case (Inl e)
    with assms c f have "m1 = m"
      by (simp add: onTurn_def Let_def)
    with c show ?thesis by simp
  next
    case (Inr s0)
    note eq = onTurn_configured [OF c f Inr]
    show ?thesis
    proof (cases "runDialogs ops root
             (s0, (if expired then [ClearConversation] else []) @ [LoadAllScopes])")
      case None
      with assms eq show ?thesis by simp
    next
      case (Some y)
      obtain r' s' es' where y: "y = (r', s', es')" using prod_cases3 by blast
      show ?thesis
      proof (cases r')
        case (Inl e)
        with assms eq Some y have "m1 = m" by simp
        with c show ?thesis by simp
      next
        case (Inr tr)
        with assms eq Some y
        have "m1 = m\<lparr>conversationState := Some (cached\<lparr>dialogs := Some s'\<rparr>)\<rparr>" by simp
        with c la show ?thesis by (auto split: option.splits)
      qed
    qed
  qed
qed

lemma onTurn_cleared:
  assumes "onTurn ops t0 t1 m = Some (r, m1, es)"
      and "rootDialogId m = Some root" and "root \<noteq> []"
      and "conversationState m = Some stored"
  shows "(ClearConversation \<in> set es)
           = (case expireAfter m of
                None \<Rightarrow> False
              | Some e \<Rightarrow> t1 - (case lastAccess stored of None \<Rightarrow> t0 | Some a \<Rightarrow> a) \<ge> e)"
proof -
  obtain cached expired where f: "refreshLastAccess (expireAfter m) t0 t1 stored = (cached, expired)"
    by (cases "refreshLastAccess (expireAfter m) t0 t1 stored")
  from f have ex: "expired = (case expireAfter m of
                None \<Rightarrow> False
              | Some e \<Rightarrow> t1 - (case lastAccess stored of None \<Rightarrow> t0 | Some a \<Rightarrow> a) \<ge> e)"
    unfolding refreshLastAccess_result by auto
  have "(ClearConversation \<in> set es) = expired"
  proof (cases "loadAllScopes ops (case dialogs cached of
                                None \<Rightarrow> emptyDialogState ops | Some d \<Rightarrow> d)")
    case (Inl e)
    with assms f have "es = (if expired then [ClearConversation] else []) @ [LoadAllScopes]"
      by (simp add: onTurn_def Let_def)
    then show ?thesis by simp
  next
    case (Inr s0)
    note eq = onTurn_configured [OF assms(2-4) f Inr]
    show ?thesis
    proof (cases "runDialogs ops root
             (s0, (if expired then [ClearConversation] else []) @ [LoadAllScopes])")
      case None
      with assms(1) eq show ?thesis by simp
    next
      case (Some y)
      obtain r' s' es' where y: "y = (r', s', es')" using prod_cases3 by blast
      from runDialogs_effects [OF Some] y obtain xs where
        xs: "es' = ((if expired then [ClearConversation] else []) @ [LoadAllScopes]) @ xs"
          "\<forall>x \<in> set xs. x = ContinueDialog \<or> x = BeginDialog root
                  \<or> (\<exists>e. x = EmitEvent ''error'' e True True)"
        by auto
      from xs(2) have nx: "ClearConversation \<notin> set xs" by blast
      have "es = es' \<or> es = es' @ [SaveAllChanges, SendTrace]"
        using assms(1) eq Some y by (cases r') simp_all
      with xs(1) nx show ?thesis by auto
    qed
  qed
  with ex show ?thesis by simp
qed


lemma onTurn_saved:
  assumes "onTurn ops t0 t1 m = Some (Inr r, m1, es)"
      and "conversationState m = Some stored"
  shows "\<exists>stored1. conversationState m1 = Some stored1
          \<and> lastAccess stored1 = Some (case lastAccess stored of None \<Rightarrow> t0 | Some a \<Rightarrow> a)"
proof -
  from assms(1) obtain root where c: "rootDialogId m = Some root" "root \<noteq> []"
    by (auto simp add: onTurn_def split: option.splits if_splits)
  obtain cached expired where f: "refreshLastAccess (expireAfter m) t0 t1 stored = (cached, expired)"
    by (cases "refreshLastAccess (expireAfter m) t0 t1 stored")
  from f have la: "lastAccess cached = Some (case lastAccess stored of None \<Rightarrow> t0 | Some a \<Rightarrow> a)"
    unfolding refreshLastAccess_result by auto
  show ?thesis
  proof (cases "loadAllScopes ops (case dialogs cached of
                                None \<Rightarrow> emptyDialogState ops | Some d \<Rightarrow> d)")
    case (Inl e)
    with assms c f show ?thesis
      by (simp add: onTurn_def Let_def)
  next
    case (Inr s0)
    note eq = onTurn_configured [OF c assms(2) f Inr]
    show ?thesis
    proof (cases "runDialogs ops root
             (s0, (if expired then [ClearConversation] else []) @ [LoadAllScopes])")
      case None
      with assms(1) eq show ?thesis by simp
    next
      case (Some y)
      obtain r' s' es' where y: "y = (r', s', es')" using prod_cases3 by blast
      show ?thesis
      proof (cases r')
        case (Inl e)
        with assms(1) eq Some y show ?thesis by simp
      next
        case (Inr tr)
        with assms(1) eq Some y
        have "m1 = m\<lparr>conversationState := Some (cached\<lparr>dialogs := Some s'\<rparr>)\<rparr>" by simp
        with la show ?thesis by simp
      qed
    qed
  qed
qed

lemma onTurns_lastAccess:
  assumes "onTurns ops ts m = Some (m', ess)"
      and "rootDialogId m = Some root" and "root \<noteq> []"
      and "conversationState m = Some stored" and "lastAccess stored = Some a"
  shows "(\<exists>stored'. conversationState m' = Some stored' \<and> lastAccess stored' = Some a)
       \<and> list_all2 (\<lambda>(t0, t1) es.
             (ClearConversation \<in> set es)
               = (case expireAfter m of None \<Rightarrow> False | Some e \<Rightarrow> t1 - a \<ge> e)) ts ess"
  using assms
proof (induction ts arbitrary: m stored ess)
  case Nil
  then show ?case by simp
next
  case (Cons t ts)
  obtain t0 t1 where t: "t = (t0, t1)" by (cases t)
  from Cons.prems(1) t obtain r m1 es ess' where
    one: "onTurn ops t0 t1 m = Some (r, m1, es)"
    and rest: "onTurns ops ts m1 = Some (m', ess')"
    and ess: "ess = es # ess'"
    by (auto split: option.splits prod.splits)
  from onTurn_manager [OF one] Cons.prems(2-5) obtain stored1 where
    m1: "rootDialogId m1 = Some root" "expireAfter m1 = expireAfter m"
      "conversationState m1 = Some stored1" "lastAccess stored1 = Some a"
    by auto
  from onTurn_cleared [OF one Cons.prems(2-4)] Cons.prems(5)
  have hd: "(ClearConversation \<in> set es)
               = (case expireAfter m of None \<Rightarrow> False | Some e \<Rightarrow> t1 - a \<ge> e)"
    by (simp split: option.split)
  from Cons.IH [OF rest m1(1) Cons.prems(3) m1(3,4)] m1(2) hd t ess
  show ?case by simp
qed

text \<open>
  Claim C9. On every turn the driver writes back to \<open>_lastAccess\<close> the value it
  loaded, which is the first reading of the clock only when the property was absent; the
  time of the turn itself is not written, and a turn that completes saves that value. So
  once a time \<open>a\<close> is stored it stays through any sequence of turns (a turn that ends in
  an exception saves nothing), and with \<open>expireAfter = e\<close> a turn clears the
  conversation state exactly when its clock reads \<open>a + e\<close> or later, whatever turns came
  in between.
\<close>

theorem lastAccess_never_advances:
  assumes "rootDialogId m = Some root" and "root \<noteq> []"
      and "conversationState m = Some stored"
  shows "refreshLastAccess (expireAfter m) t0 t1 stored =
           (\<lparr>lastAccess = Some (case lastAccess stored of None \<Rightarrow> t0 | Some a \<Rightarrow> a),
             dialogs =
               (if (case expireAfter m of
                      None \<Rightarrow> False
                    | Some e \<Rightarrow>
                        t1 - (case lastAccess stored of None \<Rightarrow> t0 | Some a \<Rightarrow> a) \<ge> e)
                then None else dialogs stored)\<rparr>,
            (case expireAfter m of
               None \<Rightarrow> False
             | Some e \<Rightarrow> t1 - (case lastAccess stored of None \<Rightarrow> t0 | Some a \<Rightarrow> a) \<ge> e))
       \<and> (\<forall>r m1 es. onTurn ops t0 t1 m = Some (Inr r, m1, es)
           \<longrightarrow> (\<exists>stored1. conversationState m1 = Some stored1
                 \<and> lastAccess stored1
                     = Some (case lastAccess stored of None \<Rightarrow> t0 | Some a \<Rightarrow> a)))
       \<and> (\<forall>a m' ess. lastAccess stored = Some a \<and> onTurns ops ts m = Some (m', ess)
           \<longrightarrow> (\<exists>stored'. conversationState m' = Some stored' \<and> lastAccess stored' = Some a)
               \<and> list_all2 (\<lambda>(t0, t1) es.
                     (ClearConversation \<in> set es)
                       = (case expireAfter m of None \<Rightarrow> False | Some e \<Rightarrow> t1 - a \<ge> e))
                   ts ess)"
proof -
  have "(\<forall>r m1 es. onTurn ops t0 t1 m = Some (Inr r, m1, es)
           \<longrightarrow> (\<exists>stored1. conversationState m1 = Some stored1
                 \<and> lastAccess stored1
                     = Some (case lastAccess stored of None \<Rightarrow> t0 | Some a \<Rightarrow> a)))
       \<and> (\<forall>a m' ess. lastAccess stored = Some a \<and> onTurns ops ts m = Some (m', ess)
           \<longrightarrow> (\<exists>stored'. conversationState m' = Some stored' \<and> lastAccess stored' = Some a)
               \<and> list_all2 (\<lambda>(t0, t1) es.
                     (ClearConversation \<in> set es)
                       = (case expireAfter m of None \<Rightarrow> False | Some e \<Rightarrow> t1 - a \<ge> e))
                   ts ess)"
    using onTurn_saved [OF _ assms(3)] onTurns_lastAccess [OF _ assms]
    by blast
  with refreshLastAccess_result [of "expireAfter m" t0 t1 stored] show ?thesis
    by (rule conjI)
qed



lemma waiting_turn:
  assumes "t < 1000"
  shows "onTurn waitingOps t t
           (manager\<lparr>conversationState := Some \<lparr>lastAccess = Some 0, dialogs = Some (Suc n)\<rparr>\<rparr>)
         = Some (Inr \<lparr>turnResult = waitingResult\<rparr>,
                 manager\<lparr>conversationState :=
                   Some \<lparr>lastAccess = Some 0, dialogs = Some (Suc (Suc n))\<rparr>\<rparr>,
                 [LoadAllScopes, ContinueDialog, SaveAllChanges, SendTrace])"
proof -
  let ?m = "manager\<lparr>conversationState := Some \<lparr>lastAccess = Some 0, dialogs = Some (Suc n)\<rparr>\<rparr>"
  have c: "rootDialogId ?m = Some ''root''" "''root'' \<noteq> []"
    "conversationState ?m = Some \<lparr>lastAccess = Some 0, dialogs = Some (Suc n)\<rparr>"
    by (simp_all add: manager_def)
  have f: "refreshLastAccess (expireAfter ?m) t t \<lparr>lastAccess = Some 0, dialogs = Some (Suc n)\<rparr>
             = (\<lparr>lastAccess = Some 0, dialogs = Some (Suc n)\<rparr>, False)"
    using assms by (simp add: refreshLastAccess_def manager_def)
  have l: "loadAllScopes waitingOps
             (case dialogs \<lparr>lastAccess = Some 0, dialogs = Some (Suc n)\<rparr> of
                None \<Rightarrow> emptyDialogState waitingOps | Some d \<Rightarrow> d) = Inr (Suc n)"
    by (simp add: waitingOps_def)
  have a: "continueOrBegin waitingOps ''root''
             (Suc n, (if False then [ClearConversation] else []) @ [LoadAllScopes])
           = (Inr waitingResult, Suc (Suc n), [LoadAllScopes, ContinueDialog])"
    by (simp add: continueOrBegin_def waitingOps_def waitingResult_def)
  show ?thesis
    unfolding onTurn_configured [OF c f l] runDialogs_returns [OF a] by simp
qed

lemma expired_turn:
  assumes "1000 \<le> t"
  shows "onTurn waitingOps t t
           (manager\<lparr>conversationState := Some \<lparr>lastAccess = Some 0, dialogs = Some (Suc n)\<rparr>\<rparr>)
         = Some (Inr \<lparr>turnResult = waitingResult\<rparr>,
                 manager\<lparr>conversationState :=
                   Some \<lparr>lastAccess = Some 0, dialogs = Some (Suc 0)\<rparr>\<rparr>,
                 [ClearConversation, LoadAllScopes, BeginDialog ''root'', SaveAllChanges,
                  SendTrace])"
proof -
  let ?m = "manager\<lparr>conversationState := Some \<lparr>lastAccess = Some 0, dialogs = Some (Suc n)\<rparr>\<rparr>"
  have c: "rootDialogId ?m = Some ''root''" "''root'' \<noteq> []"
    "conversationState ?m = Some \<lparr>lastAccess = Some 0, dialogs = Some (Suc n)\<rparr>"
    by (simp_all add: manager_def)
  have f: "refreshLastAccess (expireAfter ?m) t t \<lparr>lastAccess = Some 0, dialogs = Some (Suc n)\<rparr>
             = (\<lparr>lastAccess = Some 0, dialogs = None\<rparr>, True)"
    using assms by (simp add: refreshLastAccess_def manager_def)
  have l: "loadAllScopes waitingOps
             (case dialogs \<lparr>lastAccess = Some 0, dialogs = None :: nat option\<rparr> of
                None \<Rightarrow> emptyDialogState waitingOps | Some d \<Rightarrow> d) = Inr 0"
    by (simp add: waitingOps_def)
  have a: "continueOrBegin waitingOps ''root''
             (0, (if True then [ClearConversation] else []) @ [LoadAllScopes])
           = (Inr waitingResult, Suc 0, [ClearConversation, LoadAllScopes, BeginDialog ''root''])"
    by (simp add: continueOrBegin_def waitingOps_def waitingResult_def)
  show ?thesis
    unfolding onTurn_configured [OF c f l] runDialogs_returns [OF a] by simp
qed

theorem lastAccess_never_advances_witness:
  "onTurns waitingOps [(500, 500), (900, 900), (1200, 1200)] manager
     = Some (manager\<lparr>conversationState := Some \<lparr>lastAccess = Some 0, dialogs = Some 1\<rparr>\<rparr>,
             [[LoadAllScopes, ContinueDialog, SaveAllChanges, SendTrace],
              [LoadAllScopes, ContinueDialog, SaveAllChanges, SendTrace],
              [ClearConversation, LoadAllScopes, BeginDialog ''root'', SaveAllChanges,
               SendTrace]])
   \<and> list_all2 (\<lambda>(t0, t1) es. (ClearConversation \<in> set es) = (t1 - 0 \<ge> (1000::int)))
       [(500, 500), (900, 900), (1200, 1200)]
       [[LoadAllScopes, ContinueDialog, SaveAllChanges, SendTrace],
        [LoadAllScopes, ContinueDialog, SaveAllChanges, SendTrace],
        [ClearConversation, LoadAllScopes, BeginDialog ''root'', SaveAllChanges, SendTrace]]"
proof -
  have m: "manager = manager\<lparr>conversationState :=
              Some \<lparr>lastAccess = Some 0, dialogs = Some (Suc 0)\<rparr>\<rparr>"
    by (simp add: manager_def)
  have run: "onTurns waitingOps [(500, 500), (900, 900), (1200, 1200)] manager
     = Some (manager\<lparr>conversationState := Some \<lparr>lastAccess = Some 0, dialogs = Some 1\<rparr>\<rparr>,
             [[LoadAllScopes, ContinueDialog, SaveAllChanges, SendTrace],
              [LoadAllScopes, ContinueDialog, SaveAllChanges, SendTrace],
              [ClearConversation, LoadAllScopes, BeginDialog ''root'', SaveAllChanges,
               SendTrace]])"
    by (subst m) (simp add: waiting_turn expired_turn)
  have c: "rootDialogId manager = Some ''root''" "''root'' \<noteq> []"
    "conversationState manager = Some \<lparr>lastAccess = Some 0, dialogs = Some 1\<rparr>"
    by (simp_all add: manager_def)
  from lastAccess_never_advances [OF c, of 0 0 waitingOps "[(500, 500), (900, 900), (1200, 1200)]"]
    run
  have "list_all2 (\<lambda>(t0, t1) es.
                     (ClearConversation \<in> set es)
                       = (case expireAfter manager of None \<Rightarrow> False | Some e \<Rightarrow> t1 - 0 \<ge> e))
       [(500, 500), (900, 900), (1200, 1200)]
       [[LoadAllScopes, ContinueDialog, SaveAllChanges, SendTrace],
        [LoadAllScopes, ContinueDialog, SaveAllChanges, SendTrace],
        [ClearConversation, LoadAllScopes, BeginDialog ''root'', SaveAllChanges, SendTrace]]"
    by simp
  then have "list_all2 (\<lambda>(t0, t1) es. (ClearConversation \<in> set es) = (t1 - 0 \<ge> (1000::int)))
       [(500, 500), (900, 900), (1200, 1200)]
       [[LoadAllScopes, ContinueDialog, SaveAllChanges, SendTrace],
        [LoadAllScopes, ContinueDialog, SaveAllChanges, SendTrace],
        [ClearConversation, LoadAllScopes, BeginDialog ''root'', SaveAllChanges, SendTrace]]"
    by (simp add: manager_def)
  with run show ?thesis by simp
qed

end
